theory Spec2Isabelle
  imports Main "HOL-Library.AList"
begin

section \<open>The session pool of the command executor (src/src/executor.ts)\<close>

text \<open>
  The class \<^verbatim>\<open>CommandExecutor\<close> keeps a table of sessions, one per session key, and
  runs a command either over an SSH client stored in the table or as a local child
  process. The model below passes the object's state explicitly and records every
  effect on the outside world (file reads, connection attempts, delays, timers,
  commands sent) as an event of a trace, in the order the code performs them. What
  the outside world answers (a file's content, the outcome of a connection or of a
  command) is a parameter, the \<open>world\<close>. A method runs from its call to the settling
  of its promise as one step: no timer fires and no other call runs in between, and
  the firing of a timer is a step of its own (\<open>fireTimeout\<close>). Logging is left out.
\<close>

subsection \<open>Session keys\<close>

text \<open>
  \<^verbatim>\<open>getSessionKey(host: string | undefined)\<close> returns \<^verbatim>\<open>`${host || 'local'}`\<close>.
  An absent host is \<open>None\<close>; the empty string is the only falsy string of JavaScript.
\<close>

definition or_else :: "string option \<Rightarrow> string \<Rightarrow> string" where
  "or_else h d = (case h of None \<Rightarrow> d | Some s \<Rightarrow> if s = [] then d else s)"

definition getSessionKey :: "string option \<Rightarrow> string" where
  "getSessionKey host = or_else host ''local''"

subsection \<open>Strings\<close>

text \<open>
  A string is a list of bytes. The double quote and the backslash are named, since
  neither can stand in a string literal here.
\<close>

definition dq :: char where
  "dq = CHR 0x22"

definition bs :: char where
  "bs = CHR 0x5C"

text \<open>\<^verbatim>\<open>s.replace(/"/g, '\\"')\<close>: every double quote becomes backslash, double quote.\<close>

definition escape_dq :: "string \<Rightarrow> string" where
  "escape_dq s = concat (map (\<lambda>c. if c = dq then [bs, dq] else [c]) s)"

text \<open>\<^verbatim>\<open>xs.join(sep)\<close>\<close>

fun join :: "string \<Rightarrow> string list \<Rightarrow> string" where
  "join sep [] = []"
| "join sep [x] = x"
| "join sep (x # y # ys) = x @ sep @ join sep (y # ys)"

text \<open>\<^verbatim>\<open>s.includes(sub)\<close>\<close>

fun starts_with :: "string \<Rightarrow> string \<Rightarrow> bool" where
  "starts_with s [] = True"
| "starts_with [] (c # cs) = False"
| "starts_with (x # xs) (c # cs) = (x = c \<and> starts_with xs cs)"

fun includes_str :: "string \<Rightarrow> string \<Rightarrow> bool" where
  "includes_str [] sub = (sub = [])"
| "includes_str (x # xs) sub = (starts_with (x # xs) sub \<or> includes_str xs sub)"

text \<open>
  A string stands for a text by its bytes in UTF-8. \<^verbatim>\<open>s.trim()\<close> removes from both
  ends the white space and the line terminators of JavaScript: tab, line feed,
  vertical tab, form feed, carriage return, space, U+00A0, U+1680, U+2000 to U+200A,
  U+2028, U+2029, U+202F, U+205F, U+3000 and U+FEFF, here with their encodings.
\<close>

definition js_white :: "string list" where
  "js_white =
     [[CHR 0x09], [CHR 0x0A], [CHR 0x0B], [CHR 0x0C], [CHR 0x0D], [CHR 0x20],
      [CHR 0xC2, CHR 0xA0], [CHR 0xE1, CHR 0x9A, CHR 0x80],
      [CHR 0xE2, CHR 0x80, CHR 0x80], [CHR 0xE2, CHR 0x80, CHR 0x81],
      [CHR 0xE2, CHR 0x80, CHR 0x82], [CHR 0xE2, CHR 0x80, CHR 0x83],
      [CHR 0xE2, CHR 0x80, CHR 0x84], [CHR 0xE2, CHR 0x80, CHR 0x85],
      [CHR 0xE2, CHR 0x80, CHR 0x86], [CHR 0xE2, CHR 0x80, CHR 0x87],
      [CHR 0xE2, CHR 0x80, CHR 0x88], [CHR 0xE2, CHR 0x80, CHR 0x89],
      [CHR 0xE2, CHR 0x80, CHR 0x8A], [CHR 0xE2, CHR 0x80, CHR 0xA8],
      [CHR 0xE2, CHR 0x80, CHR 0xA9], [CHR 0xE2, CHR 0x80, CHR 0xAF],
      [CHR 0xE2, CHR 0x81, CHR 0x9F], [CHR 0xE3, CHR 0x80, CHR 0x80],
      [CHR 0xEF, CHR 0xBB, CHR 0xBF]]"

text \<open>Remove from the front of \<open>s\<close> every leading occurrence of one of the sequences \<open>ws\<close>.\<close>

function strip :: "string list \<Rightarrow> string \<Rightarrow> string" where
  "strip ws s =
     (case find (starts_with s) ws of
        None \<Rightarrow> s
      | Some w \<Rightarrow> if w = [] then s else strip ws (drop (length w) s))"
  by pat_completeness auto
termination
proof (relation "measure (\<lambda>(ws, s). length s)")
  show "wf (measure (\<lambda>(ws, s). length s))" by simp
next
  fix ws :: "string list" and s w :: string
  assume f: "find (starts_with s) ws = Some w" and w: "w \<noteq> []"
  from f have "starts_with s w" by (auto simp: find_Some_iff)
  with w have "s \<noteq> []" by (cases s; cases w) simp_all
  with w show "((ws, drop (length w) s), (ws, s)) \<in> measure (\<lambda>(ws, s). length s)"
    by simp
qed

definition trim :: "string \<Rightarrow> string" where
  "trim s = rev (strip (map rev js_white) (rev (strip js_white s)))"

subsection \<open>Environment objects\<close>

text \<open>
  A \<^verbatim>\<open>Record<string, string>\<close> is the list of its entries in the object's own
  property order: the keys that are array indices (canonical decimal numerals below
  4294967295) in ascending order, then the other keys in the order of their creation.
  An assignment to an existing key keeps its place and changes its value; a new
  key is put at its place in that order. \<^verbatim>\<open>{ ...a, ...b }\<close> copies \<open>a\<close> and assigns the
  entries of \<open>b\<close> in order.
\<close>

type_synonym env = "(string \<times> string) list"

definition is_digit :: "char \<Rightarrow> bool" where
  "is_digit c = (48 \<le> (of_char c :: nat) \<and> (of_char c :: nat) \<le> 57)"

definition index_of :: "string \<Rightarrow> nat option" where
  "index_of k =
     (if k = [] then None
      else if list_all is_digit k then
        (if 1 < length k \<and> hd k = CHR ''0'' then None
         else let n = foldl (\<lambda>a c. 10 * a + (of_char c - 48)) (0::nat) k
              in if n < 4294967295 then Some n else None)
      else None)"

fun insert_index :: "nat \<Rightarrow> string \<Rightarrow> string \<Rightarrow> env \<Rightarrow> env" where
  "insert_index n k v [] = [(k, v)]"
| "insert_index n k v ((k', v') # al) =
     (case index_of k' of
        None \<Rightarrow> (k, v) # (k', v') # al
      | Some m \<Rightarrow> if n < m then (k, v) # (k', v') # al else (k', v') # insert_index n k v al)"

definition assign :: "string \<Rightarrow> string \<Rightarrow> env \<Rightarrow> env" where
  "assign k v al =
     (if k \<in> fst ` set al then AList.update k v al
      else case index_of k of None \<Rightarrow> al @ [(k, v)] | Some n \<Rightarrow> insert_index n k v al)"

definition spread :: "env \<Rightarrow> env \<Rightarrow> env" where
  "spread a b = fold (\<lambda>(k, v). assign k v) b a"

subsection \<open>Data\<close>

text \<open>An entry of \<^verbatim>\<open>sessions\<close>. Clients, promises and timers are named by numbers.\<close>

record session =
  client :: "nat option"
  connection :: "nat option"
  timeout :: "nat option"
  host :: "string option"
  env :: "env option"

text \<open>What \<^verbatim>\<open>parseSshConfig\<close> returns: every field may be absent.\<close>

record ssh_config =
  hostname :: "string option"
  user :: "string option"
  identityFile :: "string option"
  passphrase :: "string option"
  port :: "int option"

text \<open>The \<^verbatim>\<open>connectionConfig\<close> object handed to \<^verbatim>\<open>client.connect\<close>.\<close>

record conn_config =
  cfg_host :: string
  cfg_port :: "int option"
  cfg_username :: string
  cfg_privateKey :: string
  cfg_passphrase :: "string option"
  cfg_keepaliveInterval :: nat
  cfg_timeout :: nat

text \<open>A JavaScript \<^verbatim>\<open>Error\<close> with its message.\<close>

datatype js_error = Error string

fun message :: "js_error \<Rightarrow> string" where
  "message (Error m) = m"

text \<open>\<^verbatim>\<open>fs.readFileSync\<close>: the bytes, or an error with its code (if any) and message.\<close>

datatype read_result = ReadOk string | ReadFail "string option" string

text \<open>
  What \<^verbatim>\<open>client.exec(cmd, callback)\<close> leads to: the call throws; the callback gets an
  error; the stream delivers chunks of standard output and of standard error and then
  closes (with an exit status that no handler reads); or it delivers chunks and then
  reports an error. A chunk is given as the text that \<^verbatim>\<open>data.toString()\<close> makes of it,
  which is what the handlers append to their buffers.
\<close>

datatype exec_outcome =
    ExecThrew string
  | ExecFailed string
  | StreamClosed "string list" "string list" "int option"
  | StreamFailed "string list" "string list" string

text \<open>
  The \<^verbatim>\<open>error\<close> argument of the callback of \<^verbatim>\<open>child_process.exec\<close>: its \<^verbatim>\<open>code\<close> is
  the exit status, a string such as ENOENT, or absent.
\<close>

datatype err_code = CodeNum int | CodeStr string | CodeNone

datatype exec_error = ExecError err_code string

text \<open>The effects on the outside world, in the order the code performs them.\<close>

datatype event =
    ReadKey string
  | NewClient nat
  | Connect nat string
  | Delay nat
  | SetTimeout nat string nat
  | ClearTimeout nat
  | ClientEnd nat
  | ClientExec nat string
  | ChildExec string env "string option"

text \<open>
  The state of a \<^verbatim>\<open>CommandExecutor\<close>: the \<^verbatim>\<open>sessions\<close> map in insertion order, the
  pending timers with the session key each will disconnect, the listeners registered
  on clients (client, event name), the next fresh client and timer, and the trace.
\<close>

record state =
  sessions :: "(string \<times> session) list"
  timers :: "(nat \<times> string) list"
  listeners :: "(nat \<times> string) list"
  next_client :: nat
  next_timer :: nat
  trace :: "event list"

definition init_state :: state where
  "init_state = \<lparr>sessions = [], timers = [], listeners = [], next_client = 0,
     next_timer = 0, trace = []\<rparr>"

text \<open>
  The outside world answers each request from the history so far: the SSH
  configuration of an alias, the default identity file
  (\<^verbatim>\<open>path.join(os.homedir(), '.ssh', 'id_rsa')\<close>), the reading of a file, the outcome
  of a connection (\<open>None\<close> is the event ready; \<open>Some m\<close> is the event error with
  message \<open>m\<close>, or \<^verbatim>\<open>client.connect\<close> throwing an error with message \<open>m\<close> inside the
  executor of the promise: both reject the promise with that error), the outcome of a
  remote command, the callback of a local command, and the
  environment of the server process.
\<close>

record world =
  parseSshConfig :: "event list \<Rightarrow> string \<Rightarrow> ssh_config"
  default_identity :: string
  readFileSync :: "event list \<Rightarrow> string \<Rightarrow> read_result"
  ssh_connect :: "event list \<Rightarrow> nat \<Rightarrow> conn_config \<Rightarrow> string option"
  ssh_exec :: "event list \<Rightarrow> nat \<Rightarrow> string \<Rightarrow> exec_outcome"
  child_exec :: "event list \<Rightarrow> string \<Rightarrow> env \<Rightarrow> string option
     \<Rightarrow> exec_error option \<times> string \<times> string"
  process_env :: env

definition sessionTimeout :: nat where
  "sessionTimeout = 20 * 60 * 1000"

definition maxRetries :: nat where
  "maxRetries = 3"

definition retryDelayMs :: nat where
  "retryDelayMs = 2000"

definition emit :: "event list \<Rightarrow> state \<Rightarrow> state" where
  "emit es s = s\<lparr>trace := trace s @ es\<rparr>"

subsection \<open>Timers and teardown\<close>

definition clearTimeout :: "nat \<Rightarrow> state \<Rightarrow> state" where
  "clearTimeout t s =
     emit [ClearTimeout t] (s\<lparr>timers := filter (\<lambda>p. fst p \<noteq> t) (timers s)\<rparr>)"

text \<open>\<^verbatim>\<open>resetTimeout\<close> (lines 127 to 141).\<close>

definition resetTimeout :: "string \<Rightarrow> state \<Rightarrow> state" where
  "resetTimeout sessionKey s =
     (case map_of (sessions s) sessionKey of
        None \<Rightarrow> s
      | Some se \<Rightarrow>
          let s1 = (case timeout se of Some t \<Rightarrow> clearTimeout t s | None \<Rightarrow> s);
              t = next_timer s1;
              s2 = emit [SetTimeout t sessionKey sessionTimeout]
                     (s1\<lparr>next_timer := Suc t, timers := timers s1 @ [(t, sessionKey)]\<rparr>)
          in s2\<lparr>sessions := AList.update sessionKey (se\<lparr>timeout := Some t\<rparr>) (sessions s2)\<rparr>)"

text \<open>\<^verbatim>\<open>disconnectSession\<close> (lines 277 to 290).\<close>

definition disconnectSession :: "string \<Rightarrow> state \<Rightarrow> state" where
  "disconnectSession sessionKey s =
     (case map_of (sessions s) sessionKey of
        None \<Rightarrow> s
      | Some se \<Rightarrow>
          let s1 = (case client se of Some c \<Rightarrow> emit [ClientEnd c] s | None \<Rightarrow> s);
              s2 = (case timeout se of Some t \<Rightarrow> clearTimeout t s1 | None \<Rightarrow> s1)
          in s2\<lparr>sessions := AList.delete sessionKey (sessions s2)\<rparr>)"

text \<open>\<^verbatim>\<open>disconnect\<close> (lines 292 to 299).\<close>

definition disconnect :: "state \<Rightarrow> state" where
  "disconnect s = (fold disconnectSession (map fst (sessions s)) s)\<lparr>sessions := []\<rparr>"

text \<open>The callback that \<^verbatim>\<open>resetTimeout\<close> hands to \<^verbatim>\<open>setTimeout\<close>, when timer \<open>t\<close> fires.\<close>

definition fireTimeout :: "nat \<Rightarrow> state \<Rightarrow> state" where
  "fireTimeout t s =
     (case map_of (timers s) t of
        None \<Rightarrow> s
      | Some sessionKey \<Rightarrow>
          disconnectSession sessionKey (s\<lparr>timers := filter (\<lambda>p. fst p \<noteq> t) (timers s)\<rparr>))"

subsection \<open>Connecting\<close>

text \<open>
  \<^verbatim>\<open>client.listenerCount(name)\<close>: the number of listeners registered on the client for
  the event. A client is an event emitter: \<^verbatim>\<open>on\<close> adds a listener, and a listener stays
  until it is removed. The code registers listeners with \<^verbatim>\<open>on\<close> (lines 91 and 96) and
  removes none, also when a client has ended.
\<close>

definition listenerCount :: "state \<Rightarrow> nat \<Rightarrow> string \<Rightarrow> nat" where
  "listenerCount s c name = length (filter (\<lambda>p. p = (c, name)) (listeners s))"

text \<open>The error thrown when the key file cannot be read (lines 67 to 75).\<close>

definition keyReadError :: "string \<Rightarrow> string option \<Rightarrow> string \<Rightarrow> js_error" where
  "keyReadError path code msg =
     (if code = Some ''ENOENT'' then
        Error (''SSH key file ('' @ path
          @ '') does not exist. Please ensure SSH key-based authentication is set up.'')
      else if includes_str msg ''unsupported format''
              \<or> includes_str msg ''Cannot parse privateKey'' then
        Error (''Unsupported SSH key format for key at '' @ path @ '': '' @ msg
          @ ''. If your key is encrypted, ensure '' @ [dq] @ ''passphrase'' @ [dq]
          @ '' is provided in your SSH config or the key is not encrypted.'')
      else Error (''Failed to read SSH private key from '' @ path @ '': '' @ msg))"

text \<open>
  The retry loop (lines 63 to 121), from iteration \<open>i\<close>. Each round reads the key,
  makes a client, registers the listeners for ready and error and connects. On ready
  the handler calls \<^verbatim>\<open>resetTimeout\<close> and resolves the promise; only then does the
  awaiting code store the session, with \<^verbatim>\<open>timeout: null\<close>. On error the loop waits and
  goes on, or rethrows the error in the last round.
\<close>

function connect_attempts ::
  "world \<Rightarrow> string \<Rightarrow> string \<Rightarrow> conn_config \<Rightarrow> nat \<Rightarrow> state \<Rightarrow> (js_error + unit) \<times> state"
where
  "connect_attempts w sessionKey privateKeyPath base i s =
     (if i < maxRetries then
        (case readFileSync w (trace s) privateKeyPath of
           ReadFail code msg \<Rightarrow>
             (Inl (keyReadError privateKeyPath code msg), emit [ReadKey privateKeyPath] s)
         | ReadOk privateKey \<Rightarrow>
             let c = next_client s;
                 connectionConfig = base\<lparr>cfg_privateKey := privateKey\<rparr>;
                 s1 = emit [ReadKey privateKeyPath, NewClient c, Connect c (cfg_host base)]
                        (s\<lparr>next_client := Suc c,
                           listeners := listeners s @ [(c, ''ready''), (c, ''error'')]\<rparr>)
             in (case ssh_connect w (trace s) c connectionConfig of
                   None \<Rightarrow>
                     let s2 = resetTimeout sessionKey s1
                     in (Inr (),
                         s2\<lparr>sessions := AList.update sessionKey
                               \<lparr>client = Some c, connection = Some c, timeout = None,
                                host = Some (cfg_host base), env = None\<rparr> (sessions s2)\<rparr>)
                 | Some msg \<Rightarrow>
                     if i < maxRetries - 1 then
                       connect_attempts w sessionKey privateKeyPath base (Suc i)
                         (emit [Delay retryDelayMs] s1)
                     else (Inl (Error msg), s1)))
      else (Inr (), s))"
  by pat_completeness auto
termination
  by (relation "measure (\<lambda>(w, sessionKey, privateKeyPath, base, i, s). maxRetries - i)") auto

text \<open>Lines 42 to 125 of \<^verbatim>\<open>connect\<close>: resolve the alias, then run the retry loop.\<close>

definition establish :: "world \<Rightarrow> string \<Rightarrow> string \<Rightarrow> state \<Rightarrow> (js_error + unit) \<times> state" where
  "establish w hostAlias sessionKey s =
     (let sshConfig = parseSshConfig w (trace s) hostAlias;
          actualHost = or_else (hostname sshConfig) hostAlias;
          actualUsername = or_else (user sshConfig) ''root'';
          privateKeyPath = or_else (identityFile sshConfig) (default_identity w)
      in connect_attempts w sessionKey privateKeyPath
           \<lparr>cfg_host = actualHost, cfg_port = port sshConfig, cfg_username = actualUsername,
            cfg_privateKey = [], cfg_passphrase = passphrase sshConfig,
            cfg_keepaliveInterval = 60000, cfg_timeout = 10000\<rparr> 0 s)"

text \<open>
  \<^verbatim>\<open>connect\<close> (lines 29 to 125). A stored session with a promise and a client is
  returned as it is when the client has a listener for ready or for data; otherwise it
  is deleted from the map and a new one is established.
\<close>

definition connect :: "world \<Rightarrow> string \<Rightarrow> state \<Rightarrow> (js_error + unit) \<times> state" where
  "connect w hostAlias s =
     (let sessionKey = getSessionKey (Some hostAlias)
      in case map_of (sessions s) sessionKey of
           None \<Rightarrow> establish w hostAlias sessionKey s
         | Some se \<Rightarrow>
             (case connection se of
                None \<Rightarrow> establish w hostAlias sessionKey s
              | Some p \<Rightarrow>
                  (case client se of
                     None \<Rightarrow> establish w hostAlias sessionKey s
                   | Some c \<Rightarrow>
                       if 0 < listenerCount s c ''ready'' \<or> 0 < listenerCount s c ''data''
                       then (Inr (), s)
                       else establish w hostAlias sessionKey
                              (s\<lparr>sessions := AList.delete sessionKey (sessions s)\<rparr>))))"

subsection \<open>Executing\<close>

text \<open>
  \<^verbatim>\<open>isConnectionActive\<close> (lines 143 to 164). The promise resolves to false without a
  client, on an error of \<^verbatim>\<open>exec\<close> and on a stream error, and on close to whether the
  trimmed output is \<^verbatim>\<open>ping\<close>. When \<^verbatim>\<open>exec\<close> throws inside the executor, the promise is
  rejected.
\<close>

definition isConnectionActive :: "world \<Rightarrow> nat option \<Rightarrow> state \<Rightarrow> (js_error + bool) \<times> state" where
  "isConnectionActive w cl s =
     (case cl of
        None \<Rightarrow> (Inr False, s)
      | Some c \<Rightarrow>
          let cmd = ''echo '' @ [dq] @ ''ping'' @ [dq];
              s1 = emit [ClientExec c cmd] s
          in (case ssh_exec w (trace s) c cmd of
                ExecThrew m \<Rightarrow> (Inl (Error m), s1)
              | ExecFailed m \<Rightarrow> (Inr False, s1)
              | StreamClosed out err st \<Rightarrow> (Inr (trim (concat out) = ''ping''), s1)
              | StreamFailed out err m \<Rightarrow> (Inr False, s1)))"

text \<open>The decision of lines 177 to 183, with the probe it may run.\<close>

definition needNewConnection ::
  "world \<Rightarrow> string \<Rightarrow> string \<Rightarrow> state \<Rightarrow> (js_error + bool) \<times> state" where
  "needNewConnection w sessionKey h s =
     (case map_of (sessions s) sessionKey of
        None \<Rightarrow> (Inr True, s)
      | Some sessionData \<Rightarrow>
          if host sessionData \<noteq> Some h then (Inr True, s)
          else (case client sessionData of
                  None \<Rightarrow> (Inr True, s)
                | Some c \<Rightarrow>
                    (case isConnectionActive w (Some c) s of
                       (Inl e, s') \<Rightarrow> (Inl e, s')
                     | (Inr alive, s') \<Rightarrow> (Inr (\<not> alive), s'))))"

text \<open>The command sent to the remote host (lines 201 to 207).\<close>

definition envSetup :: "env \<Rightarrow> string" where
  "envSetup e =
     join '' && '' (map (\<lambda>(k, v). ''export '' @ k @ ''='' @ [dq] @ escape_dq v @ [dq]) e)"

definition fullCommand :: "env \<Rightarrow> string \<Rightarrow> string" where
  "fullCommand e command =
     (if envSetup e \<noteq> [] then envSetup e @ '' && '' @ command else command)"

definition remoteCommandLine :: "env \<Rightarrow> string \<Rightarrow> string" where
  "remoteCommandLine e command =
     ''/bin/bash --login -c '' @ [dq] @ escape_dq (fullCommand e command) @ [dq]"

text \<open>
  The promise of lines 200 to 230: the command goes to the client; every chunk of
  standard output resets the timer; close resolves with both buffers, an error of
  \<^verbatim>\<open>exec\<close> or of the stream rejects. (The handlers of close and error are attached
  to the stream of standard error; the outcome given by the world is the first of
  the two events there, with the chunks delivered before it.)
\<close>

definition execRemote ::
  "world \<Rightarrow> string \<Rightarrow> nat \<Rightarrow> env \<Rightarrow> string \<Rightarrow> state \<Rightarrow> (js_error + string \<times> string) \<times> state" where
  "execRemote w sessionKey c e command s =
     (let line = remoteCommandLine e command;
          s1 = emit [ClientExec c line] s
      in case ssh_exec w (trace s) c line of
           ExecThrew m \<Rightarrow> (Inl (Error m), s1)
         | ExecFailed m \<Rightarrow> (Inl (Error m), s1)
         | StreamClosed out err st \<Rightarrow>
             (Inr (concat out, concat err), fold (\<lambda>chunk. resetTimeout sessionKey) out s1)
         | StreamFailed out err m \<Rightarrow>
             (Inl (Error m), fold (\<lambda>chunk. resetTimeout sessionKey) out s1))"

text \<open>The message of line 194, whose fixed text is given by its bytes in UTF-8.\<close>

definition noSessionError :: "string \<Rightarrow> js_error" where
  "noSessionError h =
     Error ([CHR 0xE6, CHR 0x97, CHR 0xA0, CHR 0xE6, CHR 0xB3, CHR 0x95, CHR 0xE5, CHR 0x88,
             CHR 0x9B, CHR 0xE5, CHR 0xBB, CHR 0xBA, CHR 0xE5, CHR 0x88, CHR 0xB0, CHR 0x20]
            @ h
            @ [CHR 0x20, CHR 0xE7, CHR 0x9A, CHR 0x84, CHR 0x53, CHR 0x53, CHR 0x48, CHR 0xE4,
               CHR 0xBC, CHR 0x9A, CHR 0xE8, CHR 0xAF, CHR 0x9D])"

text \<open>
  The remote path of \<^verbatim>\<open>executeCommand\<close> (lines 176 to 231). The session looked up
  after the decision is the object looked up before it: the probe does not touch the
  map.
\<close>

definition executeRemote ::
  "world \<Rightarrow> string \<Rightarrow> string \<Rightarrow> env \<Rightarrow> string \<Rightarrow> state \<Rightarrow> (js_error + string \<times> string) \<times> state" where
  "executeRemote w command h e sessionKey s =
     (case needNewConnection w sessionKey h s of
        (Inl err, s1) \<Rightarrow> (Inl err, s1)
      | (Inr need, s1) \<Rightarrow>
          (case (if need then connect w h s1 else (Inr (), s1)) of
             (Inl err, s2) \<Rightarrow> (Inl err, s2)
           | (Inr u, s2) \<Rightarrow>
               (case map_of (sessions s2) sessionKey of
                  None \<Rightarrow> (Inl (noSessionError h), s2)
                | Some sessionData \<Rightarrow>
                    (case client sessionData of
                       None \<Rightarrow> (Inl (noSessionError h), s2)
                     | Some c \<Rightarrow>
                         execRemote w sessionKey c e command (resetTimeout sessionKey s2)))))"

text \<open>
  The local path (lines 233 to 274). The callback of \<^verbatim>\<open>exec\<close> always resolves: with
  an error whose code is not 0, standard error is replaced by the message of the error
  when it is empty.
\<close>

definition localResult :: "exec_error option \<times> string \<times> string \<Rightarrow> string \<times> string" where
  "localResult r =
     (case r of
        (None, out, err) \<Rightarrow> (out, err)
      | (Some (ExecError code msg), out, err) \<Rightarrow>
          if code \<noteq> CodeNum 0 then (out, if err = [] then msg else err) else (out, err))"

definition executeLocal ::
  "world \<Rightarrow> string \<Rightarrow> env \<Rightarrow> string \<Rightarrow> state \<Rightarrow> (js_error + string \<times> string) \<times> state" where
  "executeLocal w command e sessionKey s =
     (let (sessionEnv, s1) =
            (case map_of (sessions s) sessionKey of
               None \<Rightarrow>
                 (e, s\<lparr>sessions := AList.update sessionKey
                          \<lparr>client = None, connection = None, timeout = None, host = None,
                           env = Some (spread [] e)\<rparr> (sessions s)\<rparr>)
             | Some sessionData \<Rightarrow>
                 let merged = spread (case env sessionData of None \<Rightarrow> [] | Some old \<Rightarrow> old) e
                 in (merged,
                     s\<lparr>sessions := AList.update sessionKey (sessionData\<lparr>env := Some merged\<rparr>)
                          (sessions s)\<rparr>));
          s2 = resetTimeout sessionKey s1;
          envVars = spread (spread [] (process_env w)) sessionEnv;
          defaultDir = map_of (process_env w) ''DEFAULT_DIR''
      in (Inr (localResult (child_exec w (trace s2) command envVars defaultDir)),
          emit [ChildExec command envVars defaultDir] s2))"

text \<open>\<^verbatim>\<open>executeCommand\<close> (lines 166 to 275): remote for a truthy host, local otherwise.\<close>

definition executeCommand ::
  "world \<Rightarrow> string \<Rightarrow> string option \<Rightarrow> env \<Rightarrow> state \<Rightarrow> (js_error + string \<times> string) \<times> state" where
  "executeCommand w command h e s =
     (let sessionKey = getSessionKey h
      in case h of
           None \<Rightarrow> executeLocal w command e sessionKey s
         | Some hst \<Rightarrow>
             if hst \<noteq> [] then executeRemote w command hst e sessionKey s
             else executeLocal w command e sessionKey s)"

section \<open>Notions used in the statements\<close>

text \<open>
  The events of a call that only reuses client \<open>c\<close>: commands sent to \<open>c\<close> and timer
  bookkeeping. A file read, a new client, a connection attempt, a delay or the end of
  a client is none of them.
\<close>

fun reuse_event :: "nat \<Rightarrow> event \<Rightarrow> bool" where
  "reuse_event c (ClientExec c' line) = (c' = c)"
| "reuse_event c (SetTimeout t k ms) = True"
| "reuse_event c (ClearTimeout t) = True"
| "reuse_event c e = False"

text \<open>
  From \<open>s\<close> to \<open>s'\<close> the session of key \<open>k\<close> was only reused: no client was made, no
  listener registered, the entry of \<open>k\<close> holds the same client and promise, and the
  trace grew by reuse events of \<open>c\<close> only.
\<close>

definition reuses :: "nat \<Rightarrow> string \<Rightarrow> state \<Rightarrow> state \<Rightarrow> bool" where
  "reuses c k s s' =
     (next_client s' = next_client s \<and> listeners s' = listeners s
      \<and> map_option client (map_of (sessions s') k) = map_option client (map_of (sessions s) k)
      \<and> map_option connection (map_of (sessions s') k)
          = map_option connection (map_of (sessions s) k)
      \<and> take (length (trace s)) (trace s') = trace s
      \<and> list_all (reuse_event c) (drop (length (trace s)) (trace s')))"

text \<open>
  The session of key \<open>k\<close> holds a timer that is pending and was started at or after
  the time when the next timer was \<open>n0\<close>.
\<close>

definition timer_running :: "nat \<Rightarrow> string \<Rightarrow> state \<Rightarrow> bool" where
  "timer_running n0 k s =
     (case map_of (sessions s) k of
        None \<Rightarrow> False
      | Some se \<Rightarrow>
          (case timeout se of
             None \<Rightarrow> False
           | Some t \<Rightarrow> (t, k) \<in> set (timers s) \<and> n0 \<le> t \<and> t < next_timer s))"

text \<open>Event \<open>a\<close> occurs in the trace and \<open>b\<close> occurs after its first occurrence.\<close>

fun precedes :: "event \<Rightarrow> event \<Rightarrow> event list \<Rightarrow> bool" where
  "precedes a b [] = False"
| "precedes a b (x # xs) = (if x = a then b \<in> set xs else precedes a b xs)"

text \<open>The environment overlay kept for local execution.\<close>

definition overlay :: "state \<Rightarrow> env option" where
  "overlay s = (case map_of (sessions s) ''local'' of None \<Rightarrow> None | Some se \<Rightarrow> env se)"

text \<open>
  What happens to an executor in a sequence of local executions: a local execution of
  a command with its \<^verbatim>\<open>env\<close>, or, between two executions, the firing of a timer. The
  state after a list of such steps.
\<close>

datatype step = Call string env | Fire nat

fun run :: "world \<Rightarrow> step list \<Rightarrow> state \<Rightarrow> state" where
  "run w [] s = s"
| "run w (Call command e # steps) s = run w steps (snd (executeCommand w command None e s))"
| "run w (Fire t # steps) s = run w steps (fireTimeout t s)"

text \<open>
  No idle timer of the local session fires in the steps: a timer that fires is not
  one that is pending for the key of local execution. (The timer of another session
  may fire, and a timer that is no longer pending does nothing.)
\<close>

fun quiet :: "world \<Rightarrow> step list \<Rightarrow> state \<Rightarrow> bool" where
  "quiet w [] s = True"
| "quiet w (Call command e # steps) s =
     quiet w steps (snd (executeCommand w command None e s))"
| "quiet w (Fire t # steps) s =
     (map_of (timers s) t \<noteq> Some ''local'' \<and> quiet w steps (fireTimeout t s))"

text \<open>The \<^verbatim>\<open>env\<close>s of the local executions among the steps, in order.\<close>

fun envs :: "step list \<Rightarrow> env list" where
  "envs [] = []"
| "envs (Call command e # steps) = e # envs steps"
| "envs (Fire t # steps) = envs steps"

text \<open>
  The events by which \<^verbatim>\<open>resetTimeout\<close> cancels the timer that the session of key \<open>k\<close>
  holds: none when there is no session or when it holds no timer.
\<close>

definition cancel :: "state \<Rightarrow> string \<Rightarrow> event list" where
  "cancel s k =
     (case map_of (sessions s) k of
        None \<Rightarrow> []
      | Some se \<Rightarrow> (case timeout se of None \<Rightarrow> [] | Some t \<Rightarrow> [ClearTimeout t]))"

text \<open>
  The events of \<open>m\<close> further resets of the timer of key \<open>k\<close>, when the pending timer is
  \<open>n\<close>: each clears the timer set before it and sets the next one.
\<close>

fun chunk_resets :: "nat \<Rightarrow> string \<Rightarrow> nat \<Rightarrow> event list" where
  "chunk_resets n k 0 = []"
| "chunk_resets n k (Suc m) =
     [ClearTimeout n, SetTimeout (Suc n) k sessionTimeout] @ chunk_resets (Suc n) k m"

text \<open>
  The state in which the remote path holds its session (lines 176 to 195): after the
  probe of a stored session, if there is one, and after \<^verbatim>\<open>connect\<close>, if a connection
  was needed.
\<close>

definition acquired :: "world \<Rightarrow> string \<Rightarrow> state \<Rightarrow> state" where
  "acquired w h s =
     (case needNewConnection w h h s of
        (Inl err, s1) \<Rightarrow> s1
      | (Inr need, s1) \<Rightarrow> if need then snd (connect w h s1) else s1)"

text \<open>
  The effects of one round of the retry loop up to its connection attempt: the key is
  read, a client is made with its two listeners, and the connection is attempted.
\<close>

definition attempt :: "string \<Rightarrow> conn_config \<Rightarrow> state \<Rightarrow> state" where
  "attempt p base s =
     emit [ReadKey p, NewClient (next_client s), Connect (next_client s) (cfg_host base)]
       (s\<lparr>next_client := Suc (next_client s),
          listeners := listeners s @ [(next_client s, ''ready''), (next_client s, ''error'')]\<rparr>)"

subsection \<open>The remote shell's reading of double quotes\<close>

text \<open>
  Not code of the repository: the rule by which a POSIX shell reads a double-quoted
  string (Shell Command Language, 2.2.3), needed to say where the remote shell ends
  the argument of \<^verbatim>\<open>-c\<close> that \<^verbatim>\<open>remoteCommandLine\<close> builds. Given the text after
  the opening quote, it returns the quoted text and the rest of the line after the
  closing quote. Inside the quotes a backslash escapes only a double quote, a
  backslash, a dollar sign and a backquote, and joins lines before a line feed;
  expansions are left in place.
\<close>

fun posix_dquoted :: "string \<Rightarrow> string \<Rightarrow> (string \<times> string) option" where
  "posix_dquoted acc [] = None"
| "posix_dquoted acc [c] = (if c = dq then Some (rev acc, []) else None)"
| "posix_dquoted acc (c # d # cs) =
     (if c = dq then Some (rev acc, d # cs)
      else if c = bs \<and> (d = dq \<or> d = bs \<or> d = CHR ''$'' \<or> d = CHR 0x60)
        then posix_dquoted (d # acc) cs
      else if c = bs \<and> d = CHR 0x0A then posix_dquoted acc cs
      else posix_dquoted (c # acc) (d # cs))"

subsection \<open>Worlds and states of the examples\<close>

definition no_config :: ssh_config where
  "no_config =
     \<lparr>hostname = None, user = None, identityFile = None, passphrase = None, port = None\<rparr>"

fun is_exec :: "event \<Rightarrow> bool" where
  "is_exec (ClientExec c line) = True"
| "is_exec e = False"

text \<open>
  A host that accepts the connection and answers the first command sent to it; after
  that the connection is dead and every command fails.
\<close>

definition w_drop :: world where
  "w_drop =
     \<lparr>parseSshConfig = (\<lambda>tr a. no_config),
      default_identity = ''/root/.ssh/id_rsa'',
      readFileSync = (\<lambda>tr p. ReadOk ''KEY''),
      ssh_connect = (\<lambda>tr c cfg. None),
      ssh_exec = (\<lambda>tr c cmd. if list_ex is_exec tr then ExecFailed ''No response from server''
                               else StreamClosed [''up 3 days''] [] (Some 0)),
      child_exec = (\<lambda>tr cmd e d. (None, [], [])),
      process_env = []\<rparr>"

text \<open>An alias that the SSH configuration resolves to another host name.\<close>

definition w_alias :: world where
  "w_alias =
     w_drop\<lparr>parseSshConfig := (\<lambda>tr a. no_config\<lparr>hostname := Some ''10.0.0.5''\<rparr>),
            ssh_exec := (\<lambda>tr c cmd. StreamClosed [''up 3 days''] [] (Some 0))\<rparr>"

text \<open>A host that never completes the handshake.\<close>

definition w_down :: world where
  "w_down = w_drop\<lparr>ssh_connect := (\<lambda>tr c cfg. Some ''Timed out while waiting for handshake'')\<rparr>"

text \<open>A machine without the key file.\<close>

definition w_nokey :: world where
  "w_nokey =
     w_drop\<lparr>readFileSync := (\<lambda>tr p. ReadFail (Some ''ENOENT'') ''no such file or directory'')\<rparr>"

text \<open>
  A machine whose key file can be read but holds a key that the SSH library cannot
  parse, such as an encrypted key without a passphrase: \<^verbatim>\<open>client.connect\<close> throws the
  error of the parser.
\<close>

definition w_badkey :: world where
  "w_badkey =
     w_drop\<lparr>ssh_connect := (\<lambda>tr c cfg. Some ''Cannot parse privateKey: Unsupported key format'')\<rparr>"

text \<open>
  A local shell that prints the value of \<^verbatim>\<open>A\<close> for the command \<^verbatim>\<open>echo $A\<close> and the
  values of \<^verbatim>\<open>A\<close> and \<^verbatim>\<open>B\<close> for the command \<^verbatim>\<open>echo $A $B\<close>, and fails with status 1
  and no output for any other command; and a remote host that answers the probe and
  on which any other command writes to both streams and exits with status 2.
\<close>

definition w_shell :: world where
  "w_shell =
     w_drop\<lparr>child_exec := (\<lambda>tr cmd e d.
        if cmd = ''echo $A'' then
          (None, or_else (map_of e ''A'') [] @ [CHR 0x0A], [])
        else if cmd = ''echo $A $B'' then
          (None, or_else (map_of e ''A'') [] @ '' '' @ or_else (map_of e ''B'') [] @ [CHR 0x0A], [])
        else (Some (ExecError (CodeNum 1) (''Command failed: '' @ cmd)), [], [])),
      ssh_exec := (\<lambda>tr c cmd.
        if cmd = ''echo '' @ [dq] @ ''ping'' @ [dq] then
          StreamClosed [''ping'' @ [CHR 0x0A]] [] (Some 0)
        else StreamClosed [''bin'', '' etc''] [''ls: cannot access /nope''] (Some 2))\<rparr>"

text \<open>The state after a first command on the host \<^verbatim>\<open>box1\<close> of \<open>w_drop\<close>.\<close>

definition s_box1 :: state where
  "s_box1 = snd (executeCommand w_drop ''uptime'' (Some ''box1'') [] init_state)"

section \<open>Properties\<close>

subsection \<open>Evaluation\<close>

declare connect_attempts.simps [simp del]

declare strip.simps [simp del]

lemmas model_defs =
  executeCommand_def executeRemote_def executeLocal_def needNewConnection_def
  isConnectionActive_def execRemote_def connect_def establish_def resetTimeout_def
  disconnectSession_def clearTimeout_def emit_def getSessionKey_def or_else_def
  listenerCount_def localResult_def spread_def assign_def index_of_def is_digit_def
  dq_def bs_def
  remoteCommandLine_def fullCommand_def envSetup_def escape_dq_def Let_def
  init_state_def maxRetries_def retryDelayMs_def sessionTimeout_def no_config_def
  connect_attempts.simps trim_def js_white_def strip.simps

lemmas world_defs =
  w_drop_def w_alias_def w_down_def w_nokey_def w_badkey_def w_shell_def

subsection \<open>Resetting the timer\<close>

lemma resetTimeout_None: "map_of (sessions s) k = None \<Longrightarrow> resetTimeout k s = s"
  by (simp add: resetTimeout_def)

lemma resetTimeout_Some:
  "map_of (sessions s) k = Some se \<Longrightarrow>
   resetTimeout k s =
     s\<lparr>sessions := AList.update k (se\<lparr>timeout := Some (next_timer s)\<rparr>) (sessions s),
       timers := (case timeout se of Some t \<Rightarrow> filter (\<lambda>p. fst p \<noteq> t) (timers s)
                  | None \<Rightarrow> timers s) @ [(next_timer s, k)],
       next_timer := Suc (next_timer s),
       trace := trace s @ (case timeout se of Some t \<Rightarrow> [ClearTimeout t] | None \<Rightarrow> [])
                @ [SetTimeout (next_timer s) k sessionTimeout]\<rparr>"
  by (simp add: resetTimeout_def clearTimeout_def emit_def Let_def split: option.splits)

lemma resetTimeout_frame [simp]:
  "listeners (resetTimeout k s) = listeners s"
  "next_client (resetTimeout k s) = next_client s"
  by (cases "map_of (sessions s) k"; simp add: resetTimeout_None resetTimeout_Some)+

lemma resetTimeout_map:
  "map_of (sessions (resetTimeout k s)) =
     (case map_of (sessions s) k of
        None \<Rightarrow> map_of (sessions s)
      | Some se \<Rightarrow> (map_of (sessions s))(k \<mapsto> se\<lparr>timeout := Some (next_timer s)\<rparr>))"
  by (cases "map_of (sessions s) k"; simp add: resetTimeout_None resetTimeout_Some update_conv')

lemma resetTimeout_lookup:
  "map_of (sessions (resetTimeout k s)) k' =
     (if k' = k then map_option (\<lambda>se. se\<lparr>timeout := Some (next_timer s)\<rparr>) (map_of (sessions s) k)
      else map_of (sessions s) k')"
  by (cases "map_of (sessions s) k"; simp add: resetTimeout_None resetTimeout_Some update_conv')

lemma resetTimeout_trace:
  "\<exists>evs. trace (resetTimeout k s) = trace s @ evs \<and> list_all (reuse_event c) evs"
  by (cases "map_of (sessions s) k";
      simp add: resetTimeout_None resetTimeout_Some split: option.splits)

subsection \<open>Reuse of a stored client\<close>

lemma reuses_iff:
  "reuses c k s s' \<longleftrightarrow>
     (next_client s' = next_client s \<and> listeners s' = listeners s
      \<and> map_option client (map_of (sessions s') k) = map_option client (map_of (sessions s) k)
      \<and> map_option connection (map_of (sessions s') k)
          = map_option connection (map_of (sessions s) k)
      \<and> (\<exists>evs. trace s' = trace s @ evs \<and> list_all (reuse_event c) evs))"
  (is "?l \<longleftrightarrow> ?r")
proof
  assume l: ?l
  then have "trace s' = trace s @ drop (length (trace s)) (trace s')"
    by (metis append_take_drop_id reuses_def)
  with l show ?r unfolding reuses_def by blast
next
  assume ?r then show ?l unfolding reuses_def by auto
qed

lemma reuses_refl: "reuses c k s s"
  by (simp add: reuses_def)

lemma reuses_trans: "reuses c k s s' \<Longrightarrow> reuses c k s' s'' \<Longrightarrow> reuses c k s s''"
  unfolding reuses_iff by auto

lemma reuses_emit: "reuse_event c ev \<Longrightarrow> reuses c k s (emit [ev] s)"
  by (simp add: reuses_def emit_def)

lemma reuses_resetTimeout: "reuses c k s (resetTimeout k' s)"
  unfolding reuses_iff using resetTimeout_trace [of k' s c]
  by (simp add: resetTimeout_lookup option.map_comp comp_def)

lemma reuses_fold_reset: "reuses c k s (fold (\<lambda>chunk. resetTimeout k') out s)"
proof (induction out arbitrary: s)
  case Nil
  show ?case by (simp add: reuses_refl)
next
  case (Cons x out)
  show ?case
    using reuses_trans [OF reuses_resetTimeout Cons.IH] by simp
qed

lemma reuses_execRemote: "reuses c k s (snd (execRemote w k' c e cmd s))"
proof -
  have a: "reuses c k s (emit [ClientExec c (remoteCommandLine e cmd)] s)"
    by (rule reuses_emit) simp
  have b: "reuses c k s (fold (\<lambda>chunk. resetTimeout k') out
              (emit [ClientExec c (remoteCommandLine e cmd)] s))" for out
    by (rule reuses_trans [OF a reuses_fold_reset])
  show ?thesis
    by (simp add: execRemote_def Let_def a b split: exec_outcome.splits)
qed

lemma reuses_needNewConnection:
  assumes "map_of (sessions s) k = Some sd" "client sd = Some c"
  shows "reuses c k s (snd (needNewConnection w k h s))"
proof -
  have a: "reuses c k s (emit [ClientExec c line] s)" for line
    by (rule reuses_emit) simp
  show ?thesis
    using assms
    by (simp add: needNewConnection_def isConnectionActive_def Let_def a reuses_refl
        split: exec_outcome.splits)
qed

lemma connect_reuse:
  assumes "map_of (sessions s) (getSessionKey (Some h)) = Some sd"
    and "client sd = Some c" and "connection sd = Some p"
    and "0 < listenerCount s c ''ready''"
  shows "connect w h s = (Inr (), s)"
  using assms by (simp add: connect_def)

lemma reuses_executeRemote:
  assumes k: "k = getSessionKey (Some h)"
    and sd: "map_of (sessions s) k = Some sd" "client sd = Some c" "connection sd = Some p"
    and l: "0 < listenerCount s c ''ready''"
  shows "reuses c k s (snd (executeRemote w cmd h e k s))"
proof -
  obtain r s1 where n: "needNewConnection w k h s = (r, s1)"
    by (cases "needNewConnection w k h s")
  have r1: "reuses c k s s1"
    using reuses_needNewConnection [OF sd(1,2), of w h] n by simp
  obtain sd1 where sd1: "map_of (sessions s1) k = Some sd1" "client sd1 = Some c"
      "connection sd1 = Some p"
    using r1 sd unfolding reuses_def by (cases "map_of (sessions s1) k") auto
  have l1: "0 < listenerCount s1 c ''ready''"
    using r1 l unfolding reuses_def listenerCount_def by simp
  have c1: "connect w h s1 = (Inr (), s1)"
    using connect_reuse [OF _ sd1(2,3) l1] sd1(1) k by simp
  have r2: "reuses c k s1 (snd (execRemote w k c e cmd (resetTimeout k s1)))"
    by (rule reuses_trans [OF reuses_resetTimeout reuses_execRemote])
  show ?thesis
  proof (cases r)
    case (Inl err)
    then show ?thesis using n r1 by (simp add: executeRemote_def)
  next
    case (Inr need)
    then show ?thesis
      using n c1 sd1 reuses_trans [OF r1 r2]
      by (simp add: executeRemote_def)
  qed
qed

subsection \<open>The retry loop\<close>

lemma connect_attempts_success:
  "connect_attempts w k p base i s = (Inr u, s') \<Longrightarrow> i < maxRetries \<Longrightarrow>
   \<exists>c. map_of (sessions s') =
         (map_of (sessions s))(k \<mapsto> \<lparr>client = Some c, connection = Some c, timeout = None,
                                  host = Some (cfg_host base), env = None\<rparr>)
       \<and> 0 < listenerCount s' c ''ready''"
proof (induction w k p base i s arbitrary: s' rule: connect_attempts.induct)
  case (1 w k p base i s)
  show ?case
  proof (cases "readFileSync w (trace s) p")
    case (ReadFail code msg)
    with "1.prems" show ?thesis
      by (simp add: connect_attempts.simps [of w k p base i s])
  next
    case (ReadOk key)
    define s1 where "s1 = emit [ReadKey p, NewClient (next_client s),
                                Connect (next_client s) (cfg_host base)]
                        (s\<lparr>next_client := Suc (next_client s),
                           listeners := listeners s
                             @ [(next_client s, ''ready''), (next_client s, ''error'')]\<rparr>)"
    have ms1: "map_of (sessions s1) = map_of (sessions s)"
      by (simp add: s1_def emit_def)
    show ?thesis
    proof (cases "ssh_connect w (trace s) (next_client s) (base\<lparr>cfg_privateKey := key\<rparr>)")
      case None
      with "1.prems" ReadOk
      have s': "s' = (resetTimeout k s1)\<lparr>sessions := AList.update k
                  \<lparr>client = Some (next_client s), connection = Some (next_client s),
                   timeout = None, host = Some (cfg_host base), env = None\<rparr>
                  (sessions (resetTimeout k s1))\<rparr>"
        by (simp add: connect_attempts.simps [of w k p base i s] Let_def s1_def)
      have "0 < listenerCount s' (next_client s) ''ready''"
        by (simp add: s' listenerCount_def s1_def emit_def)
      moreover have "map_of (sessions s') =
         (map_of (sessions s))(k \<mapsto> \<lparr>client = Some (next_client s),
            connection = Some (next_client s), timeout = None,
            host = Some (cfg_host base), env = None\<rparr>)"
        by (simp add: s' update_conv' resetTimeout_map ms1 split: option.splits)
      ultimately show ?thesis by blast
    next
      case (Some msg)
      show ?thesis
      proof (cases "i < maxRetries - 1")
        case True
        with "1.prems" ReadOk Some
        have rec: "connect_attempts w k p base (Suc i) (emit [Delay retryDelayMs] s1)
                   = (Inr u, s')"
          by (simp add: connect_attempts.simps [of w k p base i s] Let_def s1_def)
        have "Suc i < maxRetries" using True by simp
        from "1.IH" [OF "1.prems"(2) ReadOk refl refl _ Some True rec [unfolded s1_def] this]
        show ?thesis by (simp add: emit_def)
      next
        case False
        with "1.prems" ReadOk Some show ?thesis
          by (simp add: connect_attempts.simps [of w k p base i s] Let_def)
      qed
    qed
  qed
qed

text \<open>
  When \<^verbatim>\<open>readFileSync\<close> throws, in whatever round, the loop ends with the error built
  from the failure after the read alone; so does \<^verbatim>\<open>connect\<close> on a key without a
  session.
\<close>

lemma connect_read_failure_terminal:
  assumes "i < maxRetries"
    and "readFileSync w (trace s) path = ReadFail code msg"
    and "map_of (sessions s0) (getSessionKey (Some hostAlias)) = None"
    and "path0 = or_else (identityFile (parseSshConfig w (trace s0) hostAlias)) (default_identity w)"
    and "readFileSync w (trace s0) path0 = ReadFail code0 msg0"
  shows "connect_attempts w k path base i s
           = (Inl (keyReadError path code msg), emit [ReadKey path] s)
         \<and> connect w hostAlias s0 = (Inl (keyReadError path0 code0 msg0), emit [ReadKey path0] s0)"
  using assms
  by (simp add: connect_attempts.simps [of w _ _ _ _ _] connect_def establish_def Let_def
      maxRetries_def)

subsection \<open>Timers and rounds of the retry loop\<close>

lemma resetTimeout_next_timer: "next_timer s \<le> next_timer (resetTimeout k s)"
  by (cases "map_of (sessions s) k"; simp add: resetTimeout_None resetTimeout_Some)

lemma connect_attempts_timers:
  "connect_attempts w k p base i s = (r, s') \<Longrightarrow>
   next_timer s \<le> next_timer s'
   \<and> (map_of (sessions s) k = None \<longrightarrow> timers s' = timers s \<and> next_timer s' = next_timer s)"
proof (induction w k p base i s arbitrary: r s' rule: connect_attempts.induct)
  case (1 w k p base i s)
  show ?case
  proof (cases "i < maxRetries")
    case False
    with "1.prems" show ?thesis
      by (simp add: connect_attempts.simps [of w k p base i s])
  next
    case lt: True
    show ?thesis
    proof (cases "readFileSync w (trace s) p")
      case (ReadFail code msg)
      with "1.prems" lt show ?thesis
        by (auto simp: connect_attempts.simps [of w k p base i s] emit_def)
    next
      case (ReadOk key)
      define s1 where "s1 = emit [ReadKey p, NewClient (next_client s),
                                  Connect (next_client s) (cfg_host base)]
                          (s\<lparr>next_client := Suc (next_client s),
                             listeners := listeners s
                               @ [(next_client s, ''ready''), (next_client s, ''error'')]\<rparr>)"
      have fr: "sessions s1 = sessions s" "timers s1 = timers s" "next_timer s1 = next_timer s"
        by (simp_all add: s1_def emit_def)
      show ?thesis
      proof (cases "ssh_connect w (trace s) (next_client s) (base\<lparr>cfg_privateKey := key\<rparr>)")
        case None
        with "1.prems" ReadOk lt
        have s': "s' = (resetTimeout k s1)\<lparr>sessions := AList.update k
                    \<lparr>client = Some (next_client s), connection = Some (next_client s),
                     timeout = None, host = Some (cfg_host base), env = None\<rparr>
                    (sessions (resetTimeout k s1))\<rparr>"
          by (simp add: connect_attempts.simps [of w k p base i s] Let_def s1_def)
        show ?thesis
          using resetTimeout_next_timer [of s1 k] fr
          by (auto simp: s' resetTimeout_None)
      next
        case (Some msg)
        show ?thesis
        proof (cases "i < maxRetries - 1")
          case True
          with "1.prems" ReadOk Some lt
          have rec: "connect_attempts w k p base (Suc i) (emit [Delay retryDelayMs] s1)
                     = (r, s')"
            by (simp add: connect_attempts.simps [of w k p base i s] Let_def s1_def)
          from "1.IH" [OF lt ReadOk refl refl _ Some True rec [unfolded s1_def]]
          show ?thesis by (simp add: emit_def)
        next
          case False
          with "1.prems" ReadOk Some lt show ?thesis
            by (auto simp: connect_attempts.simps [of w k p base i s] Let_def emit_def)
        qed
      qed
    qed
  qed
qed

lemma connect_attempts_round_fails:
  assumes "i < maxRetries" and "readFileSync w (trace s) p = ReadOk key"
    and "ssh_connect w (trace s) (next_client s) (base\<lparr>cfg_privateKey := key\<rparr>) = Some m"
  shows "connect_attempts w k p base i s =
           (if i < maxRetries - 1
            then connect_attempts w k p base (Suc i) (emit [Delay retryDelayMs] (attempt p base s))
            else (Inl (Error m), attempt p base s))"
  using assms by (simp add: connect_attempts.simps [of w k p base i s] Let_def attempt_def)

subsection \<open>The first command on a host without a session\<close>



lemma getSessionKey_Some: "h \<noteq> [] \<Longrightarrow> getSessionKey (Some h) = h"
  by (simp add: getSessionKey_def or_else_def)


lemma s_box1_eval:
  "s_box1 =
     \<lparr>sessions = [(''box1'', \<lparr>client = Some 0, connection = Some 0, timeout = Some 1,
                     host = Some ''box1'', env = None\<rparr>)],
      timers = [(1, ''box1'')], listeners = [(0, ''ready''), (0, ''error'')],
      next_client = 1, next_timer = 2,
      trace = [ReadKey ''/root/.ssh/id_rsa'', NewClient 0, Connect 0 ''box1'',
               SetTimeout 0 ''box1'' 1200000,
               ClientExec 0 (''/bin/bash --login -c '' @ [dq] @ ''uptime'' @ [dq]),
               ClearTimeout 0, SetTimeout 1 ''box1'' 1200000]\<rparr>"
  by (simp add: s_box1_def model_defs world_defs)


subsection \<open>The idle timer during an execution\<close>

lemma timer_running_reset:
  assumes "map_of (sessions s) k = Some se" and "n0 \<le> next_timer s"
  shows "timer_running n0 k (resetTimeout k s)"
  using assms by (simp add: timer_running_def resetTimeout_Some update_conv')

lemma timer_running_reset_again:
  assumes "timer_running n0 k s"
  shows "timer_running n0 k (resetTimeout k s)"
proof -
  from assms obtain se t where "map_of (sessions s) k = Some se" "timeout se = Some t"
      "n0 \<le> t" "t < next_timer s"
    by (auto simp: timer_running_def split: option.splits)
  then show ?thesis
    using timer_running_reset [of s k se n0] by simp
qed

lemma timer_running_emit: "timer_running n0 k (emit es s) = timer_running n0 k s"
  by (simp add: timer_running_def emit_def split: option.splits)

lemma timer_running_fold:
  "timer_running n0 k s \<Longrightarrow> timer_running n0 k (fold (\<lambda>chunk. resetTimeout k) out s)"
  by (induction out arbitrary: s) (simp_all add: timer_running_reset_again)

lemma timer_running_execRemote:
  "timer_running n0 k s \<Longrightarrow> timer_running n0 k (snd (execRemote w k c e cmd s))"
  by (simp add: execRemote_def Let_def timer_running_fold timer_running_emit
      split: exec_outcome.splits)

lemma needNewConnection_next_timer:
  "next_timer (snd (needNewConnection w k h s)) = next_timer s"
  by (simp add: needNewConnection_def isConnectionActive_def Let_def emit_def
      split: option.splits exec_outcome.splits)

lemma connect_next_timer: "next_timer s \<le> next_timer (snd (connect w h s))"
proof -
  have "next_timer s0 \<le> next_timer (snd (establish w h k s0))" for s0 k
    using connect_attempts_timers [OF prod.collapse [symmetric]]
    by (simp add: establish_def Let_def)
  from this [of s] this [of "s\<lparr>sessions := AList.delete (getSessionKey (Some h)) (sessions s)\<rparr>"]
  show ?thesis
    by (simp add: connect_def Let_def split: option.splits)
qed

lemma executeRemote_timer:
  assumes "executeRemote w cmd h e k s = (Inr r, s')"
  shows "timer_running (next_timer s) k s'"
proof -
  obtain n s1 where n: "needNewConnection w k h s = (n, s1)"
    by (cases "needNewConnection w k h s")
  have t1: "next_timer s1 = next_timer s"
    using needNewConnection_next_timer [of w k h s] n by simp
  from assms n obtain need where need: "n = Inr need"
    by (cases n) (simp_all add: executeRemote_def)
  define s2 where "s2 = (if need then snd (connect w h s1) else s1)"
  have t2: "next_timer s \<le> next_timer s2"
    using connect_next_timer [of s1 w h] t1 by (simp add: s2_def)
  from assms n need obtain sd c where sd: "map_of (sessions s2) k = Some sd"
      and ex: "execRemote w k c e cmd (resetTimeout k s2) = (Inr r, s')"
    by (cases "connect w h s1")
      (auto simp: executeRemote_def s2_def split: if_splits sum.splits option.splits)
  from timer_running_execRemote [OF timer_running_reset [OF sd t2], of w c e cmd] ex
  show ?thesis by simp
qed

lemma executeLocal_timer: "timer_running (next_timer s) k (snd (executeLocal w cmd e k s))"
  by (cases "map_of (sessions s) k")
    (simp_all add: executeLocal_def Let_def timer_running_emit timer_running_reset update_conv')

subsection \<open>The events of an execution\<close>

lemma resetTimeout_trace_exact:
  "map_of (sessions s) k = Some se \<Longrightarrow>
   trace (resetTimeout k s) = trace s @ cancel s k @ [SetTimeout (next_timer s) k sessionTimeout]"
  by (simp add: resetTimeout_Some cancel_def split: option.splits)

lemma fold_reset_trace:
  "map_of (sessions s) k = Some se \<Longrightarrow> timeout se = Some n \<Longrightarrow> next_timer s = Suc n \<Longrightarrow>
   trace (fold (\<lambda>chunk. resetTimeout k) out s) = trace s @ chunk_resets n k (length out)"
proof (induction out arbitrary: s se n)
  case Nil
  show ?case by simp
next
  case (Cons x out)
  have a: "map_of (sessions (resetTimeout k s)) k = Some (se\<lparr>timeout := Some (Suc n)\<rparr>)"
    using Cons.prems by (simp add: resetTimeout_lookup)
  have b: "next_timer (resetTimeout k s) = Suc (Suc n)"
    using Cons.prems by (simp add: resetTimeout_Some)
  have c: "trace (resetTimeout k s) = trace s @ [ClearTimeout n, SetTimeout (Suc n) k sessionTimeout]"
    using Cons.prems by (simp add: resetTimeout_Some)
  from Cons.IH [OF a _ b] c show ?case by simp
qed

lemma execRemote_trace:
  assumes sd: "map_of (sessions s2) k = Some sd"
    and ex: "execRemote w k c e cmd (resetTimeout k s2) = (Inr r, s')"
  shows "\<exists>out err st.
           ssh_exec w (trace (resetTimeout k s2)) c (remoteCommandLine e cmd)
             = StreamClosed out err st
           \<and> r = (concat out, concat err)
           \<and> trace s' = trace s2 @ cancel s2 k
               @ [SetTimeout (next_timer s2) k sessionTimeout,
                  ClientExec c (remoteCommandLine e cmd)]
               @ chunk_resets (next_timer s2) k (length out)"
proof -
  define s3 where "s3 = emit [ClientExec c (remoteCommandLine e cmd)] (resetTimeout k s2)"
  from ex obtain out err st where
    o: "ssh_exec w (trace (resetTimeout k s2)) c (remoteCommandLine e cmd) = StreamClosed out err st"
    and r: "r = (concat out, concat err)"
    and s': "s' = fold (\<lambda>chunk. resetTimeout k) out s3"
    by (cases "ssh_exec w (trace (resetTimeout k s2)) c (remoteCommandLine e cmd)")
      (auto simp: execRemote_def Let_def s3_def)
  have a: "map_of (sessions s3) k = Some (sd\<lparr>timeout := Some (next_timer s2)\<rparr>)"
    using sd by (simp add: s3_def emit_def resetTimeout_lookup)
  have b: "next_timer s3 = Suc (next_timer s2)"
    using sd by (simp add: s3_def emit_def resetTimeout_Some)
  have c: "trace s3 = trace s2 @ cancel s2 k
      @ [SetTimeout (next_timer s2) k sessionTimeout, ClientExec c (remoteCommandLine e cmd)]"
    using resetTimeout_trace_exact [OF sd] by (simp add: s3_def emit_def)
  from fold_reset_trace [OF a _ b, of out] c
  have "trace s' = trace s2 @ cancel s2 k
      @ [SetTimeout (next_timer s2) k sessionTimeout, ClientExec c (remoteCommandLine e cmd)]
      @ chunk_resets (next_timer s2) k (length out)"
    by (simp add: s')
  with o r show ?thesis by blast
qed

lemma executeRemote_acquired:
  assumes ok: "executeRemote w cmd h e h s = (Inr r, s')"
  shows "\<exists>sd c. map_of (sessions (acquired w h s)) h = Some sd \<and> client sd = Some c
           \<and> execRemote w h c e cmd (resetTimeout h (acquired w h s)) = (Inr r, s')"
proof -
  obtain n s1 where n: "needNewConnection w h h s = (n, s1)"
    by (cases "needNewConnection w h h s")
  from ok n obtain need where need: "n = Inr need"
    by (cases n) (simp_all add: executeRemote_def)
  have acq: "acquired w h s = (if need then snd (connect w h s1) else s1)"
    by (simp add: acquired_def n need)
  from ok n need show ?thesis
    by (cases "connect w h s1")
      (auto simp: executeRemote_def acq split: if_splits sum.splits option.splits)
qed

lemma executeLocal_trace:
  "\<exists>ev. trace (snd (executeLocal w cmd e ''local'' s))
     = trace s @ cancel s ''local''
       @ [SetTimeout (next_timer s) ''local'' sessionTimeout,
          ChildExec cmd ev (map_of (process_env w) ''DEFAULT_DIR'')]"
proof (cases "map_of (sessions s) ''local''")
  case None
  define s1 where "s1 = s\<lparr>sessions := AList.update ''local''
      \<lparr>client = None, connection = None, timeout = None, host = None,
       env = Some (spread [] e)\<rparr> (sessions s)\<rparr>"
  have "map_of (sessions s1) ''local'' = Some \<lparr>client = None, connection = None,
      timeout = None, host = None, env = Some (spread [] e)\<rparr>"
    by (simp add: s1_def update_conv')
  from resetTimeout_trace_exact [OF this]
  have "trace (resetTimeout ''local'' s1)
      = trace s @ [SetTimeout (next_timer s) ''local'' sessionTimeout]"
    by (simp add: cancel_def s1_def update_conv')
  with None show ?thesis
    by (simp add: executeLocal_def Let_def emit_def cancel_def s1_def)
next
  case (Some sd)
  define merged where "merged = spread (case env sd of None \<Rightarrow> [] | Some old \<Rightarrow> old) e"
  define s1 where "s1 = s\<lparr>sessions := AList.update ''local'' (sd\<lparr>env := Some merged\<rparr>)
      (sessions s)\<rparr>"
  have "map_of (sessions s1) ''local'' = Some (sd\<lparr>env := Some merged\<rparr>)"
    by (simp add: s1_def update_conv')
  from resetTimeout_trace_exact [OF this]
  have "trace (resetTimeout ''local'' s1)
      = trace s @ cancel s ''local'' @ [SetTimeout (next_timer s) ''local'' sessionTimeout]"
    using Some by (simp add: cancel_def s1_def update_conv')
  with Some show ?thesis
    by (simp add: executeLocal_def Let_def emit_def s1_def merged_def)
qed

lemma connect_attempts_trace_grows:
  "\<exists>evs. trace (snd (connect_attempts w k p base i s)) = trace s @ evs"
proof (induction w k p base i s rule: connect_attempts.induct)
  case (1 w k p base i s)
  show ?case
  proof (cases "i < maxRetries")
    case False
    then show ?thesis
      by (simp add: connect_attempts.simps [of w k p base i s])
  next
    case lt: True
    show ?thesis
    proof (cases "readFileSync w (trace s) p")
      case (ReadFail code msg)
      with lt show ?thesis
        by (simp add: connect_attempts.simps [of w k p base i s] emit_def)
    next
      case (ReadOk key)
      define s1 where "s1 = emit [ReadKey p, NewClient (next_client s),
                                  Connect (next_client s) (cfg_host base)]
                          (s\<lparr>next_client := Suc (next_client s),
                             listeners := listeners s
                               @ [(next_client s, ''ready''), (next_client s, ''error'')]\<rparr>)"
      have t1: "trace s1 = trace s @ [ReadKey p, NewClient (next_client s),
                                  Connect (next_client s) (cfg_host base)]"
        by (simp add: s1_def emit_def)
      show ?thesis
      proof (cases "ssh_connect w (trace s) (next_client s) (base\<lparr>cfg_privateKey := key\<rparr>)")
        case None
        with ReadOk lt
        have "trace (snd (connect_attempts w k p base i s)) = trace (resetTimeout k s1)"
          by (simp add: connect_attempts.simps [of w k p base i s] Let_def s1_def)
        with resetTimeout_trace [of k s1 0] t1 show ?thesis
          by auto
      next
        case (Some msg)
        show ?thesis
        proof (cases "i < maxRetries - 1")
          case True
          with ReadOk Some lt
          have rec: "connect_attempts w k p base i s
              = connect_attempts w k p base (Suc i) (emit [Delay retryDelayMs] s1)"
            by (simp add: connect_attempts.simps [of w k p base i s] Let_def s1_def)
          from "1.IH" [OF lt ReadOk refl refl _ Some True]
          obtain evs where "trace (snd (connect_attempts w k p base (Suc i)
              (emit [Delay retryDelayMs] s1))) = trace (emit [Delay retryDelayMs] s1) @ evs"
            unfolding s1_def by blast
          with rec t1 show ?thesis
            by (simp add: emit_def)
        next
          case False
          with ReadOk Some lt
          have "snd (connect_attempts w k p base i s) = s1"
            by (simp add: connect_attempts.simps [of w k p base i s] Let_def s1_def)
          with t1 show ?thesis by simp
        qed
      qed
    qed
  qed
qed

lemma connect_trace_grows: "\<exists>evs. trace (snd (connect w h s)) = trace s @ evs"
proof -
  have e: "\<exists>evs. trace (snd (establish w h k s0)) = trace s0 @ evs" for k s0
    using connect_attempts_trace_grows by (simp add: establish_def Let_def)
  from e [of "getSessionKey (Some h)" s]
    e [of "getSessionKey (Some h)"
         "s\<lparr>sessions := AList.delete (getSessionKey (Some h)) (sessions s)\<rparr>"]
  show ?thesis
    by (simp add: connect_def Let_def split: option.splits)
qed

lemma needNewConnection_trace_grows:
  "\<exists>evs. trace (snd (needNewConnection w k h s)) = trace s @ evs"
  by (simp add: needNewConnection_def isConnectionActive_def Let_def emit_def
      split: option.splits exec_outcome.splits)

lemma acquired_trace_grows: "\<exists>evs. trace (acquired w h s) = trace s @ evs"
proof -
  obtain n s1 where n: "needNewConnection w h h s = (n, s1)"
    by (cases "needNewConnection w h h s")
  from needNewConnection_trace_grows [of w h h s] n
  obtain evs where 1: "trace s1 = trace s @ evs" by auto
  from connect_trace_grows [of w h s1]
  obtain evs' where 2: "trace (snd (connect w h s1)) = trace s1 @ evs'" by auto
  from 1 2 n show ?thesis
    by (cases n) (simp_all add: acquired_def)
qed

subsection \<open>Results of commands\<close>

lemma execRemote_closed:
  "ssh_exec w (trace s) c (remoteCommandLine e command) = StreamClosed out err status \<Longrightarrow>
   fst (execRemote w k c e command s) = Inr (concat out, concat err)"
  by (simp add: execRemote_def Let_def)

lemma executeLocal_result:
  "\<exists>tr ev d. fst (executeLocal w command e k s)
      = Inr (localResult (child_exec w tr command ev d))"
  by (auto simp: executeLocal_def Let_def split: option.splits prod.splits)

lemma executeCommand_local:
  "executeCommand w command None e s = executeLocal w command e ''local'' s"
  by (simp add: executeCommand_def getSessionKey_def or_else_def)

subsection \<open>A command on a host that can be connected to\<close>

lemma connect_attempts_first_ok:
  assumes reads: "\<forall>tr p code msg. readFileSync w tr p \<noteq> ReadFail code msg"
    and conn: "\<forall>tr c cfg. ssh_connect w tr c cfg = None"
  shows "\<exists>s2 sd. connect_attempts w k p base 0 s = (Inr (), s2)
           \<and> map_of (sessions s2) k = Some sd \<and> client sd = Some (next_client s)"
proof -
  from reads obtain key where r: "readFileSync w (trace s) p = ReadOk key"
    by (cases "readFileSync w (trace s) p") auto
  show ?thesis
    using r conn
    by (simp add: connect_attempts.simps [of w k p base 0 s] maxRetries_def Let_def
        update_conv')
qed

lemma connect_ok:
  assumes reads: "\<forall>tr p code msg. readFileSync w tr p \<noteq> ReadFail code msg"
    and conn: "\<forall>tr c cfg. ssh_connect w tr c cfg = None"
  shows "\<exists>s2 sd c. connect w h s = (Inr (), s2)
           \<and> map_of (sessions s2) (getSessionKey (Some h)) = Some sd \<and> client sd = Some c"
proof -
  have est: "\<exists>s2 sd c. establish w h k s0 = (Inr (), s2)
           \<and> map_of (sessions s2) k = Some sd \<and> client sd = Some c" for k s0
    using connect_attempts_first_ok [OF reads conn, of k _ _ s0]
    by (simp add: establish_def Let_def) blast
  define k where "k = getSessionKey (Some h)"
  show ?thesis
  proof (cases "map_of (sessions s) k")
    case None
    with est [of k s] show ?thesis
      by (simp add: connect_def k_def)
  next
    case (Some se)
    show ?thesis
    proof (cases "connection se")
      case None
      with Some est [of k s] show ?thesis
        by (simp add: connect_def k_def)
    next
      case p: (Some p)
      show ?thesis
      proof (cases "client se")
        case None
        with Some p est [of k s] show ?thesis
          by (simp add: connect_def k_def)
      next
        case c: (Some c)
        show ?thesis
        proof (cases "0 < listenerCount s c ''ready'' \<or> 0 < listenerCount s c ''data''")
          case True
          with Some p c have "connect w h s = (Inr (), s)"
            by (simp add: connect_def k_def)
          with Some c show ?thesis
            by (simp add: k_def)
        next
          case False
          with Some p c
          have "connect w h s = establish w h k (s\<lparr>sessions := AList.delete k (sessions s)\<rparr>)"
            by (simp add: connect_def k_def Let_def)
          with est [of k "s\<lparr>sessions := AList.delete k (sessions s)\<rparr>"] show ?thesis
            by (simp add: k_def)
        qed
      qed
    qed
  qed
qed

lemma needNewConnection_ok:
  assumes probe: "\<forall>tr c m. ssh_exec w tr c (''echo '' @ [dq] @ ''ping'' @ [dq]) \<noteq> ExecThrew m"
  shows "\<exists>need s1. needNewConnection w k h s = (Inr need, s1)
           \<and> (need \<or> (\<exists>sd c. map_of (sessions s1) k = Some sd \<and> client sd = Some c))"
proof (cases "map_of (sessions s) k")
  case None
  then show ?thesis by (auto simp: needNewConnection_def)
next
  case (Some sd)
  show ?thesis
  proof (cases "host sd = Some h \<and> client sd \<noteq> None")
    case False
    with Some show ?thesis by (auto simp: needNewConnection_def)
  next
    case True
    then obtain c where c: "client sd = Some c" by auto
    from probe have "\<And>m. ssh_exec w (trace s) c (''echo '' @ [dq] @ ''ping'' @ [dq]) \<noteq> ExecThrew m"
      by blast
    with Some True c show ?thesis
      by (cases "ssh_exec w (trace s) c (''echo '' @ [dq] @ ''ping'' @ [dq])")
        (auto simp: needNewConnection_def isConnectionActive_def Let_def emit_def)
  qed
qed

lemma executeRemote_runs:
  assumes reads: "\<forall>tr p code msg. readFileSync w tr p \<noteq> ReadFail code msg"
    and conn: "\<forall>tr c cfg. ssh_connect w tr c cfg = None"
    and probe: "\<forall>tr c m. ssh_exec w tr c (''echo '' @ [dq] @ ''ping'' @ [dq]) \<noteq> ExecThrew m"
    and h: "h \<noteq> []"
  shows "\<exists>s2 sd c. map_of (sessions s2) h = Some sd \<and> client sd = Some c
           \<and> executeCommand w cmd (Some h) e s = execRemote w h c e cmd (resetTimeout h s2)"
proof -
  from needNewConnection_ok [OF probe, of h h s] obtain need s1 where
    n: "needNewConnection w h h s = (Inr need, s1)"
    and n': "need \<or> (\<exists>sd c. map_of (sessions s1) h = Some sd \<and> client sd = Some c)"
    by blast
  have "\<exists>s2 sd c. (if need then connect w h s1 else (Inr (), s1)) = (Inr (), s2)
      \<and> map_of (sessions s2) h = Some sd \<and> client sd = Some c"
  proof (cases need)
    case True
    with connect_ok [OF reads conn, of h s1] h show ?thesis
      by (simp add: getSessionKey_Some)
  next
    case False
    with n' show ?thesis by simp
  qed
  then obtain s2 sd c where "(if need then connect w h s1 else (Inr (), s1)) = (Inr (), s2)"
      "map_of (sessions s2) h = Some sd" "client sd = Some c"
    by blast
  with n h show ?thesis
    by (auto simp: executeCommand_def executeRemote_def getSessionKey_Some)
qed

subsection \<open>The environment overlay\<close>

lemma insert_index_lookup:
  "k \<notin> fst ` set al \<Longrightarrow> map_of (insert_index n k v al) x = ((map_of al)(k \<mapsto> v)) x"
proof (induction al)
  case Nil
  show ?case by simp
next
  case (Cons p al)
  obtain k' v' where p: "p = (k', v')" by (cases p)
  with Cons.prems have ne: "k \<noteq> k'" and "k \<notin> fst ` set al" by auto
  with Cons.IH have "map_of (insert_index n k v al) x = ((map_of al)(k \<mapsto> v)) x" by simp
  with ne show ?case
    by (auto simp: p split: option.splits)
qed

lemma assign_lookup: "map_of (assign k v al) = (map_of al)(k \<mapsto> v)"
proof (rule ext)
  fix x
  show "map_of (assign k v al) x = ((map_of al)(k \<mapsto> v)) x"
  proof (cases "k \<in> fst ` set al")
    case True
    then show ?thesis by (simp add: assign_def update_conv')
  next
    case False
    then have "map_of al k = None" by (simp add: map_of_eq_None_iff)
    with False insert_index_lookup [OF False, of _ v x] show ?thesis
      by (auto simp: assign_def map_add_def split: option.splits)
  qed
qed

lemma spread_Cons: "spread a ((k, v) # b) = spread (assign k v a) b"
  by (simp add: spread_def)

lemma spread_lookup:
  "map_of (spread a b) k = (case map_of (rev b) k of None \<Rightarrow> map_of a k | Some v \<Rightarrow> Some v)"
proof (induction b arbitrary: a)
  case Nil
  show ?case by (simp add: spread_def)
next
  case (Cons x b)
  obtain k' v' where x: "x = (k', v')" by (cases x)
  show ?case
    by (simp add: x spread_Cons Cons.IH assign_lookup map_add_def split: option.splits)
qed

lemma spread_persists: "k \<notin> fst ` set b \<Longrightarrow> map_of (spread a b) k = map_of a k"
proof -
  assume "k \<notin> fst ` set b"
  then have "map_of (rev b) k = None"
    by (simp add: map_of_eq_None_iff)
  then show ?thesis by (simp add: spread_lookup)
qed

lemma spread_overrides:
  "distinct (map fst b) \<Longrightarrow> (k, v) \<in> set b \<Longrightarrow> map_of (spread a b) k = Some v"
proof -
  assume "distinct (map fst b)" "(k, v) \<in> set b"
  then have "map_of (rev b) k = Some v"
    by (simp add: distinct_rev rev_map [symmetric] del: rev_map)
  then show ?thesis by (simp add: spread_lookup)
qed

lemma overlay_reset: "overlay (resetTimeout k s) = overlay s"
  by (simp add: overlay_def resetTimeout_lookup split: option.splits)

lemma overlay_emit: "overlay (emit es s) = overlay s"
  by (simp add: overlay_def emit_def)

lemma executeLocal_overlay:
  "overlay (snd (executeLocal w command e ''local'' s))
     = Some (spread (case overlay s of None \<Rightarrow> [] | Some ov \<Rightarrow> ov) e)"
proof (cases "map_of (sessions s) ''local''")
  case None
  then have "overlay (snd (executeLocal w command e ''local'' s))
      = overlay (s\<lparr>sessions := AList.update ''local''
                          \<lparr>client = None, connection = None, timeout = None, host = None,
                           env = Some (spread [] e)\<rparr> (sessions s)\<rparr>)"
    by (simp add: executeLocal_def Let_def overlay_reset overlay_emit)
  then show ?thesis
    using None by (simp add: overlay_def update_conv')
next
  case (Some sd)
  then have "overlay (snd (executeLocal w command e ''local'' s))
      = overlay (s\<lparr>sessions := AList.update ''local''
          (sd\<lparr>env := Some (spread (case env sd of None \<Rightarrow> [] | Some old \<Rightarrow> old) e)\<rparr>)
          (sessions s)\<rparr>)"
    by (simp add: executeLocal_def Let_def overlay_reset overlay_emit)
  then show ?thesis
    using Some by (simp add: overlay_def update_conv')
qed

lemma executeLocal_child:
  "\<exists>tr. executeLocal w command e ''local'' s =
     (Inr (localResult (child_exec w tr command
             (spread (spread [] (process_env w))
                (case map_of (sessions s) ''local'' of
                   None \<Rightarrow> e
                 | Some sd \<Rightarrow> spread (case env sd of None \<Rightarrow> [] | Some old \<Rightarrow> old) e))
             (map_of (process_env w) ''DEFAULT_DIR''))),
      snd (executeLocal w command e ''local'' s))
    \<and> last (trace (snd (executeLocal w command e ''local'' s)))
        = ChildExec command
            (spread (spread [] (process_env w))
                (case map_of (sessions s) ''local'' of
                   None \<Rightarrow> e
                 | Some sd \<Rightarrow> spread (case env sd of None \<Rightarrow> [] | Some old \<Rightarrow> old) e))
            (map_of (process_env w) ''DEFAULT_DIR'')"
  by (cases "map_of (sessions s) ''local''")
    (auto simp: executeLocal_def Let_def emit_def)

lemma fire_overlay:
  "map_of (timers s) t \<noteq> Some ''local'' \<Longrightarrow> overlay (fireTimeout t s) = overlay s"
proof (cases "map_of (timers s) t")
  case None
  then show ?thesis by (simp add: fireTimeout_def)
next
  case (Some k)
  assume "map_of (timers s) t \<noteq> Some ''local''"
  with Some have "k \<noteq> ''local''" by simp
  then have "map_of (sessions (disconnectSession k s0)) ''local'' = map_of (sessions s0) ''local''"
    for s0
    by (simp add: disconnectSession_def clearTimeout_def emit_def delete_conv'
        split: option.splits)
  with Some show ?thesis
    by (simp add: fireTimeout_def overlay_def)
qed

lemma run_overlay:
  "quiet w steps s \<Longrightarrow>
   overlay (run w steps s) =
     (case envs steps of
        [] \<Rightarrow> overlay s
      | e # es \<Rightarrow> Some (foldl spread (case overlay s of None \<Rightarrow> [] | Some ov \<Rightarrow> ov) (e # es)))"
proof (induction w steps s rule: quiet.induct)
  case (1 w s)
  show ?case by simp
next
  case (2 w command e steps s)
  then show ?case
    by (simp add: executeCommand_local executeLocal_overlay split: list.splits)
next
  case (3 w t steps s)
  then show ?case
    by (simp add: fire_overlay split: list.splits)
qed

lemma executeCommand_later_local:
  assumes "overlay s = Some ov"
  shows "\<exists>tr. executeCommand w command None e s =
     (Inr (localResult (child_exec w tr command
             (spread (spread [] (process_env w)) (spread ov e))
             (map_of (process_env w) ''DEFAULT_DIR''))),
      snd (executeCommand w command None e s))
    \<and> last (trace (snd (executeCommand w command None e s)))
        = ChildExec command (spread (spread [] (process_env w)) (spread ov e))
            (map_of (process_env w) ''DEFAULT_DIR'')"
proof -
  from assms obtain sd where "map_of (sessions s) ''local'' = Some sd" "env sd = Some ov"
    by (auto simp: overlay_def split: option.splits)
  with executeLocal_child [of w command e s] show ?thesis
    by (simp add: executeCommand_local)
qed

section \<open>The claims\<close>

text \<open>
  C1. The claim: a stored session whose liveness probe returns false is discarded and
  replaced by a fresh connection before the command runs. The code does not do so.
  When the probe of the stored client \<open>c\<close> returns false, \<^verbatim>\<open>executeCommand\<close> calls
  \<^verbatim>\<open>connect\<close>, which finds the listener for ready that it registered on \<open>c\<close> itself and
  returns the stored session; the command is then sent to \<open>c\<close>. Stated for every
  session that has a client, a promise and a listener for ready, as every session
  stored by \<^verbatim>\<open>connect\<close> has: the call is the execution on \<open>c\<close>, and it only reuses \<open>c\<close>.
\<close>

theorem executeCommand_dead_session_reused:
  assumes h: "h \<noteq> []"
    and sd: "map_of (sessions s) h = Some sd" "client sd = Some c" "connection sd = Some p"
    and hst: "host sd = Some h"
    and l: "0 < listenerCount s c ''ready''"
    and dead: "isConnectionActive w (Some c) s = (Inr False, s1)"
  shows "executeCommand w cmd (Some h) e s = execRemote w h c e cmd (resetTimeout h s1)
         \<and> reuses c h s (snd (executeCommand w cmd (Some h) e s))"
proof -
  have s1: "s1 = emit [ClientExec c (''echo '' @ [dq] @ ''ping'' @ [dq])] s"
    using dead by (simp add: isConnectionActive_def Let_def split: exec_outcome.splits)
  have n: "needNewConnection w h h s = (Inr True, s1)"
    using sd hst dead by (simp add: needNewConnection_def)
  have c1: "connect w h s1 = (Inr (), s1)"
    by (rule connect_reuse [of _ _ sd c p])
      (use sd l h in \<open>simp_all add: s1 emit_def listenerCount_def getSessionKey_Some\<close>)
  have "executeRemote w cmd h e h s = execRemote w h c e cmd (resetTimeout h s1)"
    using n c1 sd by (simp add: executeRemote_def s1 emit_def)
  moreover have "reuses c h s (snd (executeRemote w cmd h e h s))"
    by (rule reuses_executeRemote [OF _ sd l]) (simp add: getSessionKey_Some h)
  ultimately show ?thesis
    using h by (simp add: executeCommand_def getSessionKey_Some)
qed


text \<open>
  On the host of \<open>w_drop\<close>, after a first command: the probe fails, the second command
  goes to the dead client 0 and fails, and no second client is made.
\<close>

theorem executeCommand_dead_session_reused_witness:
  "fst (isConnectionActive w_drop (Some 0) s_box1) = Inr False
   \<and> executeCommand w_drop ''uptime'' (Some ''box1'') [] s_box1
       = execRemote w_drop ''box1'' 0 [] ''uptime''
           (resetTimeout ''box1'' (snd (isConnectionActive w_drop (Some 0) s_box1)))
   \<and> reuses 0 ''box1'' s_box1 (snd (executeCommand w_drop ''uptime'' (Some ''box1'') [] s_box1))
   \<and> fst (executeCommand w_drop ''uptime'' (Some ''box1'') [] s_box1)
       = Inl (Error ''No response from server'')
   \<and> next_client (snd (executeCommand w_drop ''uptime'' (Some ''box1'') [] s_box1)) = 1"
proof -
  have h: "''box1'' \<noteq> []" by simp
  have sd: "map_of (sessions s_box1) ''box1''
      = Some \<lparr>client = Some 0, connection = Some 0, timeout = Some 1,
              host = Some ''box1'', env = None\<rparr>"
    by (simp add: s_box1_eval)
  have l: "0 < listenerCount s_box1 0 ''ready''"
    by (simp add: s_box1_eval listenerCount_def)
  have p: "fst (isConnectionActive w_drop (Some 0) s_box1) = Inr False"
    by (simp add: s_box1_eval isConnectionActive_def world_defs Let_def)
  then have dead: "isConnectionActive w_drop (Some 0) s_box1
      = (Inr False, snd (isConnectionActive w_drop (Some 0) s_box1))"
    by (simp add: prod_eq_iff)
  have r: "fst (executeCommand w_drop ''uptime'' (Some ''box1'') [] s_box1)
       = Inl (Error ''No response from server'')"
    by (simp add: s_box1_eval model_defs world_defs)
  have n: "next_client (snd (executeCommand w_drop ''uptime'' (Some ''box1'') [] s_box1)) = 1"
    by (simp add: s_box1_eval model_defs world_defs)
  note t = executeCommand_dead_session_reused [OF h sd _ _ _ l dead, of 0 "''uptime''" "[]"]
  show ?thesis
    by (intro conjI p r n conjunct1 [OF t] conjunct2 [OF t]) simp_all
qed


text \<open>
  C2. The claim: a value of \<^verbatim>\<open>env\<close> with a double quote in it reaches the remote
  command intact. The code escapes the quotes of the value, and then escapes the
  quotes of the whole command once more without escaping the backslashes it has just
  added. For the value a, double quote, b and the command \<^verbatim>\<open>echo $X\<close> the line sent
  is the one below, in which the quote of the value follows an escaped backslash.
\<close>

theorem remote_env_quote_breaks_command:
  "remoteCommandLine [(''X'', [CHR ''a'', dq, CHR ''b''])] ''echo $X''
     = ''/bin/bash --login -c '' @ [dq] @ ''export X='' @ [bs, dq] @ ''a'' @ [bs, bs, dq]
       @ ''b'' @ [bs, dq] @ '' && echo $X'' @ [dq]"
  by (simp add: remoteCommandLine_def fullCommand_def envSetup_def escape_dq_def dq_def bs_def)

text \<open>
  The remote shell ends the argument of \<^verbatim>\<open>-c\<close> at that quote: the argument is the
  export up to the backslash after a, and the rest of the line, with its own unmatched
  quote, is left to the shell that reads the line.
\<close>

lemma remote_env_quote_closes_early:
  "posix_dquoted [] (''export X='' @ [bs, dq] @ ''a'' @ [bs, bs, dq]
       @ ''b'' @ [bs, dq] @ '' && echo $X'' @ [dq])
     = Some (''export X='' @ [dq] @ ''a'' @ [bs], ''b'' @ [bs, dq] @ '' && echo $X'' @ [dq])"
  by (simp add: dq_def bs_def)







text \<open>
  C4. The claim: when the credential cannot be read, also because the key is in an
  unsupported or encrypted format, \<^verbatim>\<open>connect\<close> throws at once, with no connection
  attempt, no retry and no delay. The code does so when \<^verbatim>\<open>readFileSync\<close> throws
  (lemma \<open>connect_read_failure_terminal\<close>). But \<^verbatim>\<open>readFileSync\<close> returns the bytes of
  a key of any format; the format is rejected by \<^verbatim>\<open>client.connect\<close>, and its error is
  handled as a failed connection attempt. With the key of \<open>w_badkey\<close>, \<^verbatim>\<open>connect\<close>
  reads the key three times, makes three clients, attempts three connections and
  waits twice for 2000 ms before it throws; and it throws the error of the parser, not
  the error that line 71 builds for a key of an unsupported format.
\<close>

theorem connect_retries_key_format_error:
  "connect w_badkey ''box1'' init_state =
     (Inl (Error ''Cannot parse privateKey: Unsupported key format''),
      \<lparr>sessions = [], timers = [],
       listeners = [(0, ''ready''), (0, ''error''), (1, ''ready''), (1, ''error''),
                    (2, ''ready''), (2, ''error'')],
       next_client = 3, next_timer = 0,
       trace = [ReadKey ''/root/.ssh/id_rsa'', NewClient 0, Connect 0 ''box1'', Delay 2000,
                ReadKey ''/root/.ssh/id_rsa'', NewClient 1, Connect 1 ''box1'', Delay 2000,
                ReadKey ''/root/.ssh/id_rsa'', NewClient 2, Connect 2 ''box1'']\<rparr>)
   \<and> fst (connect w_badkey ''box1'' init_state)
       \<noteq> Inl (keyReadError ''/root/.ssh/id_rsa'' None
                 ''Cannot parse privateKey: Unsupported key format'')"
  by (simp add: model_defs world_defs keyReadError_def)


text \<open>
  C5. The claim: when all attempts fail, the error that \<^verbatim>\<open>connect\<close> propagates is
  annotated with the host alias. It is not: the code rethrows the error of the last
  attempt as it is. Against the host of \<open>w_down\<close> the alias \<^verbatim>\<open>box1\<close> does not occur in
  the message of the error thrown.
\<close>

theorem connect_error_without_alias:
  "fst (connect w_down ''box1'' init_state)
     = Inl (Error ''Timed out while waiting for handshake'')
   \<and> \<not> includes_str (message (Error ''Timed out while waiting for handshake'')) ''box1''"
  by (simp add: model_defs world_defs)


text \<open>
  C5, amended. On a key without a session, when the key is read and the connection
  fails in each of the three rounds, \<^verbatim>\<open>connect\<close> throws the error of the third attempt
  with its message unchanged. It has read the key three times, made three clients,
  attempted three connections and waited 2000 ms after the first and after the
  second; the sessions and the timers are as before the call.
\<close>

theorem connect_all_attempts_fail:
  assumes fresh: "map_of (sessions s) (getSessionKey (Some hostAlias)) = None"
    and conf: "conf = parseSshConfig w (trace s) hostAlias"
    and path: "path = or_else (identityFile conf) (default_identity w)"
    and hst: "hst = or_else (hostname conf) hostAlias"
    and base: "base = \<lparr>cfg_host = hst, cfg_port = port conf,
                 cfg_username = or_else (user conf) ''root'', cfg_privateKey = [],
                 cfg_passphrase = passphrase conf, cfg_keepaliveInterval = 60000,
                 cfg_timeout = 10000\<rparr>"
    and c: "c = next_client s"
    and tr2: "tr2 = trace s @ [ReadKey path, NewClient c, Connect c hst, Delay 2000]"
    and tr3: "tr3 = tr2 @ [ReadKey path, NewClient (c + 1), Connect (c + 1) hst, Delay 2000]"
    and r1: "readFileSync w (trace s) path = ReadOk k1"
    and f1: "ssh_connect w (trace s) c (base\<lparr>cfg_privateKey := k1\<rparr>) = Some m1"
    and r2: "readFileSync w tr2 path = ReadOk k2"
    and f2: "ssh_connect w tr2 (c + 1) (base\<lparr>cfg_privateKey := k2\<rparr>) = Some m2"
    and r3: "readFileSync w tr3 path = ReadOk k3"
    and f3: "ssh_connect w tr3 (c + 2) (base\<lparr>cfg_privateKey := k3\<rparr>) = Some m3"
  shows "connect w hostAlias s =
           (Inl (Error m3),
            s\<lparr>listeners := listeners s @ [(c, ''ready''), (c, ''error''),
                  (c + 1, ''ready''), (c + 1, ''error''), (c + 2, ''ready''), (c + 2, ''error'')],
              next_client := c + 3,
              trace := tr3 @ [ReadKey path, NewClient (c + 2), Connect (c + 2) hst]\<rparr>)"
proof -
  define key where "key = getSessionKey (Some hostAlias)"
  define d1 where "d1 = emit [Delay retryDelayMs] (attempt path base s)"
  define d2 where "d2 = emit [Delay retryDelayMs] (attempt path base d1)"
  have hb: "cfg_host base = hst" by (simp add: base)
  have t1: "trace d1 = tr2" "next_client d1 = c + 1"
    by (simp_all add: d1_def attempt_def emit_def tr2 retryDelayMs_def hb c)
  have t2: "trace d2 = tr3" "next_client d2 = c + 2"
    by (simp_all add: d2_def attempt_def emit_def tr3 t1 retryDelayMs_def hb)
  have first: "connect_attempts w key path base 0 s = connect_attempts w key path base 1 d1"
    using connect_attempts_round_fails [of 0 w s path k1 base m1 key] r1 f1
    by (simp add: maxRetries_def c d1_def)
  have second: "connect_attempts w key path base 1 d1 = connect_attempts w key path base 2 d2"
    using connect_attempts_round_fails [of 1 w d1 path k2 base m2 key] r2 f2
    by (simp add: maxRetries_def t1 d2_def numeral_2_eq_2)
  have third: "connect_attempts w key path base 2 d2 = (Inl (Error m3), attempt path base d2)"
    using connect_attempts_round_fails [of 2 w d2 path k3 base m3 key] r3 f3
    by (simp add: maxRetries_def t2)
  have fin: "attempt path base d2 =
      s\<lparr>listeners := listeners s @ [(c, ''ready''), (c, ''error''),
                  (c + 1, ''ready''), (c + 1, ''error''), (c + 2, ''ready''), (c + 2, ''error'')],
        next_client := c + 3,
        trace := tr3 @ [ReadKey path, NewClient (c + 2), Connect (c + 2) hst]\<rparr>"
    by (simp add: d2_def d1_def attempt_def emit_def tr3 tr2 retryDelayMs_def hb c)
  have "connect w hostAlias s = connect_attempts w key path base 0 s"
    using fresh by (simp add: connect_def establish_def Let_def key_def conf path hst base)
  then show ?thesis
    by (simp only: first second third fin)
qed


text \<open>Against the host of \<open>w_down\<close>, from the initial state.\<close>

theorem connect_all_attempts_fail_witness:
  "map_of (sessions init_state) (getSessionKey (Some ''box1'')) = None
   \<and> connect w_down ''box1'' init_state =
       (Inl (Error ''Timed out while waiting for handshake''),
        \<lparr>sessions = [], timers = [],
         listeners = [(0, ''ready''), (0, ''error''), (1, ''ready''), (1, ''error''),
                      (2, ''ready''), (2, ''error'')],
         next_client = 3, next_timer = 0,
         trace = [ReadKey ''/root/.ssh/id_rsa'', NewClient 0, Connect 0 ''box1'', Delay 2000,
                  ReadKey ''/root/.ssh/id_rsa'', NewClient 1, Connect 1 ''box1'', Delay 2000,
                  ReadKey ''/root/.ssh/id_rsa'', NewClient 2, Connect 2 ''box1'']\<rparr>)"
proof -
  have fresh: "map_of (sessions init_state) (getSessionKey (Some ''box1'')) = None"
    by (simp add: init_state_def)
  note t = connect_all_attempts_fail [where w = w_down and s = init_state and hostAlias = "''box1''"
      and ?k1.0 = "''KEY''" and ?k2.0 = "''KEY''" and ?k3.0 = "''KEY''"
      and ?m1.0 = "''Timed out while waiting for handshake''"
      and ?m2.0 = "''Timed out while waiting for handshake''"
      and ?m3.0 = "''Timed out while waiting for handshake''",
      OF fresh refl refl refl refl refl refl refl]
  have ev: "connect w_down ''box1'' init_state =
       (Inl (Error ''Timed out while waiting for handshake''),
        \<lparr>sessions = [], timers = [],
         listeners = [(0, ''ready''), (0, ''error''), (1, ''ready''), (1, ''error''),
                      (2, ''ready''), (2, ''error'')],
         next_client = 3, next_timer = 0,
         trace = [ReadKey ''/root/.ssh/id_rsa'', NewClient 0, Connect 0 ''box1'', Delay 2000,
                  ReadKey ''/root/.ssh/id_rsa'', NewClient 1, Connect 1 ''box1'', Delay 2000,
                  ReadKey ''/root/.ssh/id_rsa'', NewClient 2, Connect 2 ''box1'']\<rparr>)"
    using t by (simp add: world_defs no_config_def or_else_def init_state_def)
  show ?thesis
    by (intro conjI fresh ev)
qed


text \<open>
  C6. A status other than zero is not raised as an error. Remote: on a host that can
  be connected to (the key file is read, connections succeed and the probe does not
  throw), when the stream of the command closes, with whatever exit status,
  \<^verbatim>\<open>executeCommand\<close> on that host resolves, from any state of the executor, with the
  two buffers as they were collected. Local: the call always resolves; when the child
  exits with a status \<open>n\<close> other than zero, it resolves with the standard output and
  with the standard error, or with the message of the failure when the standard error
  is empty.
\<close>

theorem nonzero_exit_is_not_an_error:
  assumes h: "h \<noteq> []"
    and reads: "\<forall>tr p code msg. readFileSync w tr p \<noteq> ReadFail code msg"
    and conn: "\<forall>tr c cfg. ssh_connect w tr c cfg = None"
    and probe: "\<forall>tr c m. ssh_exec w tr c (''echo '' @ [dq] @ ''ping'' @ [dq]) \<noteq> ExecThrew m"
    and remote: "\<forall>tr c. ssh_exec w tr c (remoteCommandLine e command)
                   = StreamClosed out err status"
    and loc: "\<forall>tr ev d. child_exec w tr lcommand ev d
                = (Some (ExecError (CodeNum n) msg), lout, lerr)"
    and n: "n \<noteq> 0"
  shows "fst (executeCommand w command (Some h) e s) = Inr (concat out, concat err)
         \<and> fst (executeCommand w lcommand None le ls)
             = Inr (lout, if lerr = [] then msg else lerr)
         \<and> (\<exists>res. fst (executeCommand w2 lcommand2 None le2 ls2) = Inr res)"
proof -
  from executeRemote_runs [OF reads conn probe h, of command e s]
  obtain s2 c where "executeCommand w command (Some h) e s
      = execRemote w h c e command (resetTimeout h s2)"
    by blast
  with remote have r: "fst (executeCommand w command (Some h) e s) = Inr (concat out, concat err)"
    by (simp add: execRemote_closed)
  from executeLocal_result [of w lcommand le "''local''" ls] loc n
  have "fst (executeLocal w lcommand le ''local'' ls)
      = Inr (lout, if lerr = [] then msg else lerr)"
    by (auto simp: localResult_def)
  moreover from executeLocal_result [of w2 lcommand2 le2 "''local''" ls2]
  have "\<exists>res. fst (executeLocal w2 lcommand2 le2 ''local'' ls2) = Inr res"
    by blast
  ultimately show ?thesis
    using r by (simp add: executeCommand_local)
qed


text \<open>
  A remote \<^verbatim>\<open>ls\<close> that exits with 2, on a first connection and on a stored session,
  and a local \<^verbatim>\<open>false\<close> that exits with 1.
\<close>

theorem nonzero_exit_is_not_an_error_witness:
  "''box1'' \<noteq> []
   \<and> (\<forall>tr p code msg. readFileSync w_shell tr p \<noteq> ReadFail code msg)
   \<and> (\<forall>tr c cfg. ssh_connect w_shell tr c cfg = None)
   \<and> (\<forall>tr c m. ssh_exec w_shell tr c (''echo '' @ [dq] @ ''ping'' @ [dq]) \<noteq> ExecThrew m)
   \<and> (\<forall>tr c. ssh_exec w_shell tr c (remoteCommandLine [] ''ls /bin /nope'')
         = StreamClosed [''bin'', '' etc''] [''ls: cannot access /nope''] (Some 2))
   \<and> (\<forall>tr ev d. child_exec w_shell tr ''false'' ev d
         = (Some (ExecError (CodeNum 1) ''Command failed: false''), [], []))
   \<and> (1::int) \<noteq> 0
   \<and> fst (executeCommand w_shell ''ls /bin /nope'' (Some ''box1'') [] init_state)
       = Inr (''bin etc'', ''ls: cannot access /nope'')
   \<and> fst (executeCommand w_shell ''ls /bin /nope'' (Some ''box1'') [] s_box1)
       = Inr (''bin etc'', ''ls: cannot access /nope'')
   \<and> fst (executeCommand w_shell ''false'' None [] init_state)
       = Inr ([], ''Command failed: false'')"
proof -
  have h: "''box1'' \<noteq> []" by simp
  have reads: "\<forall>tr p code msg. readFileSync w_shell tr p \<noteq> ReadFail code msg"
    by (simp add: world_defs)
  have conn: "\<forall>tr c cfg. ssh_connect w_shell tr c cfg = None"
    by (simp add: world_defs)
  have probe: "\<forall>tr c m. ssh_exec w_shell tr c (''echo '' @ [dq] @ ''ping'' @ [dq]) \<noteq> ExecThrew m"
    by (simp add: world_defs)
  have a: "\<forall>tr c. ssh_exec w_shell tr c (remoteCommandLine [] ''ls /bin /nope'')
     = StreamClosed [''bin'', '' etc''] [''ls: cannot access /nope''] (Some 2)"
    by (simp add: world_defs model_defs)
  have b: "\<forall>tr ev d. child_exec w_shell tr ''false'' ev d
         = (Some (ExecError (CodeNum 1) ''Command failed: false''), [], [])"
    by (simp add: world_defs)
  have c: "(1::int) \<noteq> 0" by simp
  note t = nonzero_exit_is_not_an_error [OF h reads conn probe a b c]
  show ?thesis
    using t [of init_state "[]" init_state] t [of s_box1 "[]" init_state]
    by (intro conjI h reads conn probe a b c) simp_all
qed


text \<open>
  C7. The claim: for every sequence of local executions the overlay accumulates
  across the calls. It does not when the idle timer of the local session fires
  between two calls: the timer that the first call of the example sets is pending for
  the key of local execution; when it fires, the session is deleted with its overlay,
  and the second call starts from its own \<^verbatim>\<open>env\<close>. The child then finds \<^verbatim>\<open>A\<close> unset, and
  with the shell of \<open>w_shell\<close> the standard output is a space and 2, not 1 and 2.
\<close>

theorem local_env_lost_when_timer_fires:
  "fst (executeCommand w_shell ''echo $A'' None [(''A'', ''1'')] init_state)
     = Inr (''1'' @ [CHR 0x0A], [])
   \<and> map_of (timers (snd (executeCommand w_shell ''echo $A'' None [(''A'', ''1'')] init_state))) 0
       = Some ''local''
   \<and> overlay (fireTimeout 0
        (snd (executeCommand w_shell ''echo $A'' None [(''A'', ''1'')] init_state))) = None
   \<and> fst (executeCommand w_shell ''echo $A $B'' None [(''B'', ''2'')]
        (fireTimeout 0
          (snd (executeCommand w_shell ''echo $A'' None [(''A'', ''1'')] init_state))))
       = Inr ('' 2'' @ [CHR 0x0A], [])"
  by (simp add: model_defs world_defs overlay_def fireTimeout_def)


text \<open>
  C7, amended. In every sequence of local executions in which no idle timer of the
  local session fires, the overlay accumulates. From a state without a local session,
  the first call sets it to its own \<^verbatim>\<open>env\<close>; after the steps it is the \<^verbatim>\<open>env\<close>s of the
  calls spread one over the other in order; a further call spreads its \<^verbatim>\<open>env\<close> over it,
  so that a key of the call takes the call's value and a key the call does not
  mention keeps its value; and the child of that call runs in the environment of the
  process overlaid with the result. In the example, the child of the second call
  finds \<^verbatim>\<open>A\<close> set to 1 and \<^verbatim>\<open>B\<close> set to 2, and the standard output returned is what the
  child prints there.
\<close>

theorem local_env_accumulates:
  assumes fresh: "map_of (sessions s) ''local'' = None"
    and q: "quiet w (Call c1 e1 # steps) s"
    and d: "distinct (map fst e2)" and kv: "(k, v) \<in> set e2" and k': "k' \<notin> fst ` set e2"
    and s1: "s1 = run w (Call c1 e1 # steps) s"
    and ov: "ov = foldl spread (spread [] e1) (envs steps)"
  shows "overlay (snd (executeCommand w c1 None e1 s)) = Some (spread [] e1)
         \<and> overlay s1 = Some ov
         \<and> overlay (snd (executeCommand w c2 None e2 s1)) = Some (spread ov e2)
         \<and> map_of (spread ov e2) k = Some v
         \<and> map_of (spread ov e2) k' = map_of ov k'
         \<and> last (trace (snd (executeCommand w c2 None e2 s1)))
             = ChildExec c2 (spread (spread [] (process_env w)) (spread ov e2))
                 (map_of (process_env w) ''DEFAULT_DIR'')
         \<and> (\<exists>tr ev. fst (executeCommand w ''echo $A $B'' None [(''B'', ''2'')]
                          (snd (executeCommand w ''echo $A'' None [(''A'', ''1'')] s)))
                 = Inr (localResult (child_exec w tr ''echo $A $B'' ev
                          (map_of (process_env w) ''DEFAULT_DIR'')))
               \<and> map_of ev ''A'' = Some ''1'' \<and> map_of ev ''B'' = Some ''2'')"
proof -
  have o0: "overlay s = None"
    using fresh by (simp add: overlay_def)
  have a: "overlay (snd (executeCommand w c1 None e1 s)) = Some (spread [] e1)"
    by (simp add: executeCommand_local executeLocal_overlay o0)
  have b: "overlay s1 = Some ov"
    using run_overlay [OF q] by (simp add: s1 ov o0)
  have c: "overlay (snd (executeCommand w c2 None e2 s1)) = Some (spread ov e2)"
    by (simp add: executeCommand_local executeLocal_overlay b)
  have e: "last (trace (snd (executeCommand w c2 None e2 s1)))
             = ChildExec c2 (spread (spread [] (process_env w)) (spread ov e2))
                 (map_of (process_env w) ''DEFAULT_DIR'')"
    using executeCommand_later_local [OF b] by blast
  have oa: "overlay (snd (executeCommand w ''echo $A'' None [(''A'', ''1'')] s))
      = Some [(''A'', ''1'')]"
    by (simp add: executeCommand_local executeLocal_overlay o0 spread_def assign_def
        index_of_def is_digit_def)
  define ev where
    "ev = spread (spread [] (process_env w)) (spread [(''A'', ''1'')] [(''B'', ''2'')])"
  have "map_of ev ''A'' = Some ''1''" "map_of ev ''B'' = Some ''2''"
    by (simp_all add: ev_def spread_lookup)
      (simp_all add: spread_def assign_def index_of_def is_digit_def)
  with executeCommand_later_local [OF oa, of w "''echo $A $B''" "[(''B'', ''2'')]"]
  have f: "\<exists>tr ev. fst (executeCommand w ''echo $A $B'' None [(''B'', ''2'')]
                          (snd (executeCommand w ''echo $A'' None [(''A'', ''1'')] s)))
                 = Inr (localResult (child_exec w tr ''echo $A $B'' ev
                          (map_of (process_env w) ''DEFAULT_DIR'')))
               \<and> map_of ev ''A'' = Some ''1'' \<and> map_of ev ''B'' = Some ''2''"
    unfolding ev_def by (metis fst_conv)
  show ?thesis
    using a b c e f spread_overrides [OF d kv] spread_persists [OF k'] by blast
qed


text \<open>
  With the shell of \<open>w_shell\<close>, from the state that holds the session of \<^verbatim>\<open>box1\<close>: the
  first call, then the idle timer of \<^verbatim>\<open>box1\<close> fires and its session is torn down; the
  second call returns the line \<^verbatim>\<open>1 2\<close>, as it does right after the first call.
\<close>

theorem local_env_accumulates_witness:
  "map_of (sessions s_box1) ''local'' = None
   \<and> quiet w_shell [Call ''echo $A'' [(''A'', ''1'')], Fire 1] s_box1
   \<and> distinct (map fst [(''B'', ''2'')]) \<and> (''B'', ''2'') \<in> set [(''B'', ''2'')]
   \<and> ''A'' \<notin> fst ` set [(''B'', ''2'')]
   \<and> map_of (timers (snd (executeCommand w_shell ''echo $A'' None [(''A'', ''1'')] s_box1))) 1
       = Some ''box1''
   \<and> map_of (sessions (run w_shell [Call ''echo $A'' [(''A'', ''1'')], Fire 1] s_box1)) ''box1''
       = None
   \<and> overlay (run w_shell [Call ''echo $A'' [(''A'', ''1'')], Fire 1] s_box1)
       = Some [(''A'', ''1'')]
   \<and> overlay (snd (executeCommand w_shell ''echo $A $B'' None [(''B'', ''2'')]
                (run w_shell [Call ''echo $A'' [(''A'', ''1'')], Fire 1] s_box1)))
       = Some [(''A'', ''1''), (''B'', ''2'')]
   \<and> fst (executeCommand w_shell ''echo $A $B'' None [(''B'', ''2'')]
           (run w_shell [Call ''echo $A'' [(''A'', ''1'')], Fire 1] s_box1))
       = Inr (''1 2'' @ [CHR 0x0A], [])
   \<and> fst (executeCommand w_shell ''echo $A $B'' None [(''B'', ''2'')]
           (snd (executeCommand w_shell ''echo $A'' None [(''A'', ''1'')] init_state)))
       = Inr (''1 2'' @ [CHR 0x0A], [])"
proof -
  have fresh: "map_of (sessions s_box1) ''local'' = None"
    by (simp add: s_box1_eval)
  have tm: "map_of (timers (snd (executeCommand w_shell ''echo $A'' None [(''A'', ''1'')] s_box1))) 1
       = Some ''box1''"
    by (simp add: s_box1_eval model_defs world_defs)
  then have q: "quiet w_shell [Call ''echo $A'' [(''A'', ''1'')], Fire 1] s_box1"
    by simp
  have gone: "map_of (sessions (run w_shell [Call ''echo $A'' [(''A'', ''1'')], Fire 1] s_box1))
      ''box1'' = None"
    by (simp add: s_box1_eval fireTimeout_def model_defs world_defs)
  have d: "distinct (map fst [(''B'', ''2'')])" by simp
  have kv: "(''B'', ''2'') \<in> set [(''B'', ''2'')]" by simp
  have k': "''A'' \<notin> fst ` set [(''B'', ''2'')]" by simp
  note t = local_env_accumulates [OF fresh q d kv k' refl refl, of "''echo $A $B''"]
  have r: "fst (executeCommand w_shell ''echo $A $B'' None [(''B'', ''2'')]
           (run w_shell [Call ''echo $A'' [(''A'', ''1'')], Fire 1] s_box1))
       = Inr (''1 2'' @ [CHR 0x0A], [])"
    by (simp add: s_box1_eval fireTimeout_def model_defs world_defs)
  have r0: "fst (executeCommand w_shell ''echo $A $B'' None [(''B'', ''2'')]
           (snd (executeCommand w_shell ''echo $A'' None [(''A'', ''1'')] init_state)))
       = Inr (''1 2'' @ [CHR 0x0A], [])"
    by (simp add: model_defs world_defs)
  have sp: "foldl spread (spread [] [(''A'', ''1'')]) (envs [Fire 1]) = [(''A'', ''1'')]"
    "spread [(''A'', ''1'')] [(''B'', ''2'')] = [(''A'', ''1''), (''B'', ''2'')]"
    by (simp_all add: spread_def assign_def index_of_def is_digit_def)
  have o1: "overlay (run w_shell [Call ''echo $A'' [(''A'', ''1'')], Fire 1] s_box1)
       = Some [(''A'', ''1'')]"
    using conjunct1 [OF conjunct2 [OF t]] by (simp only: sp)
  have o2: "overlay (snd (executeCommand w_shell ''echo $A $B'' None [(''B'', ''2'')]
                (run w_shell [Call ''echo $A'' [(''A'', ''1'')], Fire 1] s_box1)))
       = Some [(''A'', ''1''), (''B'', ''2'')]"
    using conjunct1 [OF conjunct2 [OF conjunct2 [OF t]]] by (simp only: sp)
  show ?thesis
    by (intro conjI fresh q d kv k' tm gone o1 o2 r r0)
qed


text \<open>
  C8. The claim: after \<^verbatim>\<open>connect\<close> returns the idle timer of the session is running.
  In the code the handler of ready calls \<^verbatim>\<open>resetTimeout\<close> before the session is stored,
  where it finds no session and returns, and the session is then stored with
  \<^verbatim>\<open>timeout: null\<close>. So after a successful \<^verbatim>\<open>connect\<close> on a key without a session the
  session is installed, but it holds no timer and no timer was started.
\<close>

theorem connect_leaves_timer_unset:
  assumes fresh: "map_of (sessions s) (getSessionKey (Some hostAlias)) = None"
    and ok: "connect w hostAlias s = (Inr u, s')"
  shows "\<exists>sess. map_of (sessions s') (getSessionKey (Some hostAlias)) = Some sess
           \<and> timeout sess = None
           \<and> timers s' = timers s \<and> next_timer s' = next_timer s
           \<and> \<not> timer_running n (getSessionKey (Some hostAlias)) s'"
proof -
  define k where "k = getSessionKey (Some hostAlias)"
  from ok fresh have est: "establish w hostAlias k s = (Inr u, s')"
    by (simp add: connect_def k_def)
  then obtain p base where ca: "connect_attempts w k p base 0 s = (Inr u, s')"
    by (simp add: establish_def Let_def)
  from connect_attempts_success [OF ca] obtain c where
    "map_of (sessions s') = (map_of (sessions s))(k \<mapsto> \<lparr>client = Some c, connection = Some c,
        timeout = None, host = Some (cfg_host base), env = None\<rparr>)"
    by (auto simp: maxRetries_def)
  then have "map_of (sessions s') k = Some \<lparr>client = Some c, connection = Some c,
        timeout = None, host = Some (cfg_host base), env = None\<rparr>"
    by simp
  moreover from connect_attempts_timers [OF ca] fresh
  have "timers s' = timers s \<and> next_timer s' = next_timer s"
    by (simp add: k_def)
  ultimately show ?thesis
    by (simp add: k_def [symmetric] timer_running_def)
qed


text \<open>The first connection to the host of \<open>w_drop\<close>.\<close>

theorem connect_leaves_timer_unset_witness:
  "map_of (sessions init_state) (getSessionKey (Some ''box1'')) = None
   \<and> connect w_drop ''box1'' init_state =
       (Inr (),
        \<lparr>sessions = [(''box1'', \<lparr>client = Some 0, connection = Some 0, timeout = None,
                        host = Some ''box1'', env = None\<rparr>)],
         timers = [], listeners = [(0, ''ready''), (0, ''error'')],
         next_client = 1, next_timer = 0,
         trace = [ReadKey ''/root/.ssh/id_rsa'', NewClient 0, Connect 0 ''box1'']\<rparr>)
   \<and> (\<exists>sess. map_of (sessions (snd (connect w_drop ''box1'' init_state)))
                 (getSessionKey (Some ''box1'')) = Some sess
           \<and> timeout sess = None
           \<and> timers (snd (connect w_drop ''box1'' init_state)) = timers init_state
           \<and> next_timer (snd (connect w_drop ''box1'' init_state)) = next_timer init_state
           \<and> \<not> timer_running 0 (getSessionKey (Some ''box1''))
                 (snd (connect w_drop ''box1'' init_state)))"
proof -
  have fresh: "map_of (sessions init_state) (getSessionKey (Some ''box1'')) = None"
    by (simp add: init_state_def)
  have ev: "connect w_drop ''box1'' init_state =
       (Inr (),
        \<lparr>sessions = [(''box1'', \<lparr>client = Some 0, connection = Some 0, timeout = None,
                        host = Some ''box1'', env = None\<rparr>)],
         timers = [], listeners = [(0, ''ready''), (0, ''error'')],
         next_client = 1, next_timer = 0,
         trace = [ReadKey ''/root/.ssh/id_rsa'', NewClient 0, Connect 0 ''box1'']\<rparr>)"
    by (simp add: model_defs world_defs)
  then have ok: "connect w_drop ''box1'' init_state
      = (Inr (), snd (connect w_drop ''box1'' init_state))"
    by simp
  note t = connect_leaves_timer_unset [OF fresh ok, of 0]
  show ?thesis
    by (intro conjI fresh ev t)
qed


text \<open>
  C9. The claim: the idle timer is reset on successful command completion, and in a
  teardown it is cleared before the transport is closed. Neither holds. A local
  command that succeeds sets the timer once, before the child is started, and nothing
  is reset when it completes: no \<open>SetTimeout\<close> follows the \<open>ChildExec\<close>. And
  \<^verbatim>\<open>disconnectSession\<close> ends the client first and clears the timer after it: in the
  teardown of the session of \<^verbatim>\<open>box1\<close> the event \<open>ClientEnd 0\<close> comes before
  \<open>ClearTimeout 1\<close>.
\<close>

theorem timer_not_reset_at_completion_nor_cleared_before_close:
  "fst (executeCommand w_shell ''echo $A'' None [(''A'', ''1'')] init_state)
     = Inr (''1'' @ [CHR 0x0A], [])
   \<and> trace (snd (executeCommand w_shell ''echo $A'' None [(''A'', ''1'')] init_state))
       = [SetTimeout 0 ''local'' 1200000, ChildExec ''echo $A'' [(''A'', ''1'')] None]
   \<and> \<not> precedes (ChildExec ''echo $A'' [(''A'', ''1'')] None) (SetTimeout 0 ''local'' 1200000)
         (trace (snd (executeCommand w_shell ''echo $A'' None [(''A'', ''1'')] init_state)))
   \<and> trace (disconnectSession ''box1'' s_box1) = trace s_box1 @ [ClientEnd 0, ClearTimeout 1]
   \<and> \<not> precedes (ClearTimeout 1) (ClientEnd 0) (trace (disconnectSession ''box1'' s_box1))
   \<and> precedes (ClientEnd 0) (ClearTimeout 1) (trace (disconnectSession ''box1'' s_box1))"
  by (simp add: s_box1_eval model_defs world_defs)


text \<open>
  C9, amended. The idle timer is reset when a command is started, not when it
  completes. The events of a remote call that returns a result, when no timer fires
  during the call, are: those of finding or connecting the session; then one reset of
  the timer, which cancels the timer that the session holds, if any, and sets a new
  one; then the command sent to the client; then one reset for every chunk of
  standard output, and nothing after them. A local call resets the timer once and
  then starts the child. In both cases the session holds a pending timer, set during
  the call, when the call returns. And the teardown of a session with a client and a
  timer ends the client, then clears the timer, and removes the entry; the timer is no
  longer pending.
\<close>

theorem timer_reset_before_command_and_cleared_after_close:
  assumes h: "h \<noteq> []"
    and ok: "executeCommand w cmd (Some h) e s = (Inr r, s')"
    and sd: "map_of (sessions s0) k = Some se" "client se = Some c0" "timeout se = Some t"
  shows "(\<exists>pre. trace (acquired w h s) = trace s @ pre)
         \<and> (\<exists>c out err st.
            ssh_exec w (trace (resetTimeout h (acquired w h s))) c (remoteCommandLine e cmd)
              = StreamClosed out err st
            \<and> r = (concat out, concat err)
            \<and> trace s' = trace (acquired w h s) @ cancel (acquired w h s) h
                @ [SetTimeout (next_timer (acquired w h s)) h sessionTimeout,
                   ClientExec c (remoteCommandLine e cmd)]
                @ chunk_resets (next_timer (acquired w h s)) h (length out))
         \<and> timer_running (next_timer s) h s'
         \<and> (\<exists>ev. trace (snd (executeCommand w lcmd None le ls))
                = trace ls @ cancel ls ''local''
                  @ [SetTimeout (next_timer ls) ''local'' sessionTimeout,
                     ChildExec lcmd ev (map_of (process_env w) ''DEFAULT_DIR'')])
         \<and> timer_running (next_timer ls) ''local'' (snd (executeCommand w lcmd None le ls))
         \<and> trace (disconnectSession k s0) = trace s0 @ [ClientEnd c0, ClearTimeout t]
         \<and> map_of (sessions (disconnectSession k s0)) k = None
         \<and> t \<notin> fst ` set (timers (disconnectSession k s0))"
proof -
  from ok h have er: "executeRemote w cmd h e h s = (Inr r, s')"
    by (simp add: executeCommand_def getSessionKey_Some)
  from executeRemote_acquired [OF er] obtain sd c where
    a: "map_of (sessions (acquired w h s)) h = Some sd"
    and x: "execRemote w h c e cmd (resetTimeout h (acquired w h s)) = (Inr r, s')"
    by blast
  from execRemote_trace [OF a x]
  have 1: "\<exists>c out err st.
            ssh_exec w (trace (resetTimeout h (acquired w h s))) c (remoteCommandLine e cmd)
              = StreamClosed out err st
            \<and> r = (concat out, concat err)
            \<and> trace s' = trace (acquired w h s) @ cancel (acquired w h s) h
                @ [SetTimeout (next_timer (acquired w h s)) h sessionTimeout,
                   ClientExec c (remoteCommandLine e cmd)]
                @ chunk_resets (next_timer (acquired w h s)) h (length out)"
    by blast
  have 2: "timer_running (next_timer s) h s'"
    by (rule executeRemote_timer [OF er])
  have 3: "\<exists>ev. trace (snd (executeCommand w lcmd None le ls))
                = trace ls @ cancel ls ''local''
                  @ [SetTimeout (next_timer ls) ''local'' sessionTimeout,
                     ChildExec lcmd ev (map_of (process_env w) ''DEFAULT_DIR'')]"
    using executeLocal_trace [of w lcmd le ls] by (simp add: executeCommand_local)
  have 4: "timer_running (next_timer ls) ''local'' (snd (executeCommand w lcmd None le ls))"
    using executeLocal_timer [of ls "''local''" w lcmd le] by (simp add: executeCommand_local)
  have 5: "trace (disconnectSession k s0) = trace s0 @ [ClientEnd c0, ClearTimeout t]"
    using sd by (simp add: disconnectSession_def clearTimeout_def emit_def)
  have 6: "map_of (sessions (disconnectSession k s0)) k = None"
    using sd by (simp add: disconnectSession_def clearTimeout_def emit_def delete_conv')
  have 7: "t \<notin> fst ` set (timers (disconnectSession k s0))"
    using sd by (auto simp: disconnectSession_def clearTimeout_def emit_def)
  have 0: "\<exists>pre. trace (acquired w h s) = trace s @ pre"
    by (rule acquired_trace_grows)
  from 0 1 2 3 4 5 6 7 show ?thesis by blast
qed


text \<open>
  The first command on \<^verbatim>\<open>box1\<close> in \<open>w_drop\<close>, whose output comes in one chunk, a local
  command, and the teardown of the session of \<^verbatim>\<open>box1\<close>.
\<close>

theorem timer_reset_before_command_and_cleared_after_close_witness:
  "(''box1'' \<noteq> []
    \<and> executeCommand w_drop ''uptime'' (Some ''box1'') [] init_state
        = (Inr (''up 3 days'', []), s_box1)
    \<and> map_of (sessions s_box1) ''box1''
        = Some \<lparr>client = Some 0, connection = Some 0, timeout = Some 1,
                host = Some ''box1'', env = None\<rparr>
    \<and> trace (acquired w_drop ''box1'' init_state)
        = [ReadKey ''/root/.ssh/id_rsa'', NewClient 0, Connect 0 ''box1'']
    \<and> cancel (acquired w_drop ''box1'' init_state) ''box1'' = []
    \<and> chunk_resets 0 ''box1'' 1 = [ClearTimeout 0, SetTimeout 1 ''box1'' 1200000])
   \<and> ((\<exists>pre. trace (acquired w_drop ''box1'' init_state) = trace init_state @ pre)
        \<and> (\<exists>c out err st.
            ssh_exec w_drop (trace (resetTimeout ''box1'' (acquired w_drop ''box1'' init_state))) c
                (remoteCommandLine [] ''uptime'')
              = StreamClosed out err st
            \<and> (''up 3 days'', []) = (concat out, concat err)
            \<and> trace s_box1
                = trace (acquired w_drop ''box1'' init_state)
                @ cancel (acquired w_drop ''box1'' init_state) ''box1''
                @ [SetTimeout (next_timer (acquired w_drop ''box1'' init_state)) ''box1''
                     sessionTimeout,
                   ClientExec c (remoteCommandLine [] ''uptime'')]
                @ chunk_resets (next_timer (acquired w_drop ''box1'' init_state)) ''box1''
                    (length out))
         \<and> timer_running (next_timer init_state) ''box1'' s_box1
         \<and> (\<exists>ev. trace (snd (executeCommand w_drop ''pwd'' None [] init_state))
                = trace init_state @ cancel init_state ''local''
                  @ [SetTimeout (next_timer init_state) ''local'' sessionTimeout,
                     ChildExec ''pwd'' ev (map_of (process_env w_drop) ''DEFAULT_DIR'')])
         \<and> timer_running (next_timer init_state) ''local''
             (snd (executeCommand w_drop ''pwd'' None [] init_state))
         \<and> trace (disconnectSession ''box1'' s_box1) = trace s_box1 @ [ClientEnd 0, ClearTimeout 1]
         \<and> map_of (sessions (disconnectSession ''box1'' s_box1)) ''box1'' = None
         \<and> 1 \<notin> fst ` set (timers (disconnectSession ''box1'' s_box1)))"
proof -
  have h: "''box1'' \<noteq> []" by simp
  have "fst (executeCommand w_drop ''uptime'' (Some ''box1'') [] init_state)
      = Inr (''up 3 days'', [])"
    by (simp add: model_defs world_defs)
  then have ok: "executeCommand w_drop ''uptime'' (Some ''box1'') [] init_state
     = (Inr (''up 3 days'', []), s_box1)"
    by (simp add: s_box1_def prod_eq_iff)
  have sd: "map_of (sessions s_box1) ''box1''
       = Some \<lparr>client = Some 0, connection = Some 0, timeout = Some 1,
               host = Some ''box1'', env = None\<rparr>"
    by (simp add: s_box1_eval)
  have a: "trace (acquired w_drop ''box1'' init_state)
        = [ReadKey ''/root/.ssh/id_rsa'', NewClient 0, Connect 0 ''box1'']"
    "cancel (acquired w_drop ''box1'' init_state) ''box1'' = []"
    by (simp_all add: acquired_def cancel_def model_defs world_defs)
  have c: "chunk_resets 0 ''box1'' 1 = [ClearTimeout 0, SetTimeout 1 ''box1'' 1200000]"
    by (simp add: sessionTimeout_def)
  have se: "client \<lparr>client = Some 0, connection = Some 0, timeout = Some 1,
               host = Some ''box1'', env = None\<rparr> = Some (0::nat)"
    "timeout \<lparr>client = Some 0, connection = Some 0, timeout = Some 1,
               host = Some ''box1'', env = None\<rparr> = Some (1::nat)"
    by simp_all
  note t = timer_reset_before_command_and_cleared_after_close [OF h ok sd se, of "''pwd''" "[]"
      init_state]
  show ?thesis
    by (rule conjI [OF _ t]) (intro conjI h ok sd a c; simp)+
qed


text \<open>
  C10. The session key is a function of the host alone, and it is not injective: the
  host named "local" and the empty host string both get the key of an absent host,
  the key under which local execution keeps its session. So a remote host named
  "local" shares the entry of local execution: in \<open>w_alias\<close>, after a local command
  has set the overlay, a command on the host "local" leaves one entry under the key
  "local", which now holds the client and no overlay.
\<close>

theorem getSessionKey_not_injective:
  "getSessionKey (Some ''local'') = getSessionKey None
   \<and> getSessionKey (Some []) = getSessionKey None
   \<and> getSessionKey None = ''local''
   \<and> \<not> inj getSessionKey
   \<and> overlay (snd (executeCommand w_alias ''pwd'' None [(''A'', ''1'')] init_state))
       = Some [(''A'', ''1'')]
   \<and> map fst (sessions (snd (executeCommand w_alias ''uptime'' (Some ''local'') []
         (snd (executeCommand w_alias ''pwd'' None [(''A'', ''1'')] init_state)))))
       = [''local'']
   \<and> map_option client (map_of (sessions (snd (executeCommand w_alias ''uptime''
         (Some ''local'') []
         (snd (executeCommand w_alias ''pwd'' None [(''A'', ''1'')] init_state))))) ''local'')
       = Some (Some 0)
   \<and> overlay (snd (executeCommand w_alias ''uptime'' (Some ''local'') []
         (snd (executeCommand w_alias ''pwd'' None [(''A'', ''1'')] init_state)))) = None"
proof -
  have k: "getSessionKey (Some ''local'') = getSessionKey None"
    by (simp add: getSessionKey_def or_else_def)
  have "\<not> inj getSessionKey"
  proof
    assume "inj getSessionKey"
    from injD [OF this k] show False by simp
  qed
  moreover have "getSessionKey (Some []) = getSessionKey None"
      "getSessionKey None = ''local''"
    by (simp_all add: getSessionKey_def or_else_def)
  moreover have
    "overlay (snd (executeCommand w_alias ''pwd'' None [(''A'', ''1'')] init_state))
       = Some [(''A'', ''1'')]"
    "map fst (sessions (snd (executeCommand w_alias ''uptime'' (Some ''local'') []
         (snd (executeCommand w_alias ''pwd'' None [(''A'', ''1'')] init_state)))))
       = [''local'']"
    "map_option client (map_of (sessions (snd (executeCommand w_alias ''uptime''
         (Some ''local'') []
         (snd (executeCommand w_alias ''pwd'' None [(''A'', ''1'')] init_state))))) ''local'')
       = Some (Some 0)"
    "overlay (snd (executeCommand w_alias ''uptime'' (Some ''local'') []
         (snd (executeCommand w_alias ''pwd'' None [(''A'', ''1'')] init_state)))) = None"
    by (simp_all add: model_defs world_defs overlay_def)
  ultimately show ?thesis
    using k by blast
qed

end
